theory Spec2Isabelle
  imports Complex_Main "HOL-Library.Char_ord" "HOL-Library.List_Lexorder" "HOL-Library.Multiset"
begin

section \<open>JavaScript values used by the planner\<close>

text \<open>
  A JavaScript Number is NaN, one of the two infinities, or a finite value. The finite
  values are read as the reals they denote; \<open>+0\<close> and \<open>-0\<close> are one value,
  as they are for \<open>===\<close> and for the sign of a difference.
\<close>

datatype number = NaN | NInf | Fin real | PInf

text \<open>\<open>x === y\<close> on Numbers: false as soon as one side is NaN.\<close>

definition strict_eq :: "number \<Rightarrow> number \<Rightarrow> bool" where
  "strict_eq x y = (x \<noteq> NaN \<and> y \<noteq> NaN \<and> x = y)"

text \<open>\<open>x - y\<close> on Numbers (the sign of a finite difference is the sign of the real one).\<close>

fun js_sub :: "number \<Rightarrow> number \<Rightarrow> number" where
  "js_sub NaN _ = NaN"
| "js_sub _ NaN = NaN"
| "js_sub PInf PInf = NaN"
| "js_sub NInf NInf = NaN"
| "js_sub PInf _ = PInf"
| "js_sub NInf _ = NInf"
| "js_sub (Fin a) PInf = NInf"
| "js_sub (Fin a) NInf = PInf"
| "js_sub (Fin a) (Fin b) = Fin (a - b)"

text \<open>Truthiness of a Number: NaN and zero are falsy.\<close>

definition truthy_num :: "number \<Rightarrow> bool" where
  "truthy_num x = (x \<noteq> NaN \<and> x \<noteq> Fin 0)"

text \<open>
  Truthiness of an optional string field (\<open>undefined\<close> is \<open>None\<close>): a missing field
  and the empty string are falsy.
\<close>

definition truthy :: "string option \<Rightarrow> bool" where
  "truthy s = (case s of None \<Rightarrow> False | Some t \<Rightarrow> t \<noteq> [])"

text \<open>\<open>s || d\<close> for an optional string \<open>s\<close>.\<close>

definition str_or :: "string option \<Rightarrow> string \<Rightarrow> string" where
  "str_or s d = (case s of None \<Rightarrow> d | Some t \<Rightarrow> if t = [] then d else t)"

section \<open>Data model\<close>

record point =
  lat :: number
  lng :: number

text \<open>
  The arguments of a \<open>location\<close> function call, typed as the schema declares them:
  coordinates arrive as strings, \<open>sequence\<close> as a JSON number.
\<close>

record location_args =
  args_name :: string
  args_description :: string
  args_lat :: string
  args_lng :: string
  args_time :: "string option"
  args_duration :: "string option"
  args_sequence :: "real option"

record raw_point =
  raw_lat :: string
  raw_lng :: string

record line_args =
  line_name :: "string option"
  line_start :: raw_point
  line_end :: raw_point
  line_transport :: "string option"
  line_travelTime :: "string option"

text \<open>
  \<open>locationInfo\<close> of \<open>setPin\<close>. The popup markup and the marker handle do not
  take part in ordering, matching or layout and are left out.
\<close>

record locationInfo =
  name :: string
  description :: string
  position :: point
  time :: "string option"
  duration :: "string option"
  sequence :: "real option"

text \<open>
  An element of \<open>lines\<close>: the polyline (or the plain object of the map-less branch)
  with the properties \<open>setLeg\<close> attaches to it.
\<close>

record leg =
  leg_name :: "string option"
  transport :: "string option"
  travelTime :: "string option"
  startPoint :: "point option"
  endPoint :: "point option"

section \<open>Leg matching\<close>

text \<open>
  The predicate handed to \<open>lines.find\<close> in \<open>createTimeline\<close> and in
  \<open>exportDayPlan\<close> (the two copies are the same code).
\<close>

definition connects :: "point \<Rightarrow> point \<Rightarrow> leg \<Rightarrow> bool" where
  "connects p1 p2 line =
     (case startPoint line of
        None \<Rightarrow> False
      | Some l_start \<Rightarrow>
          (case endPoint line of
             None \<Rightarrow> False
           | Some l_end \<Rightarrow>
               (strict_eq (lat l_start) (lat p1) \<and> strict_eq (lng l_start) (lng p1) \<and>
                strict_eq (lat l_end) (lat p2) \<and> strict_eq (lng l_end) (lng p2)) \<or>
               (strict_eq (lat l_start) (lat p2) \<and> strict_eq (lng l_start) (lng p2) \<and>
                strict_eq (lat l_end) (lat p1) \<and> strict_eq (lng l_end) (lng p1))))"

text \<open>\<open>connectingLine = lines.find(...)\<close>; \<open>undefined\<close> is \<open>None\<close>.\<close>

definition connectingLine :: "leg list \<Rightarrow> locationInfo \<Rightarrow> locationInfo \<Rightarrow> leg option" where
  "connectingLine ls currentItem nextItem =
     List.find (connects (position currentItem) (position nextItem)) ls"

text \<open>The spec's point equality: both coordinates compare equal exactly.\<close>

definition point_equals :: "point \<Rightarrow> point \<Rightarrow> bool" where
  "point_equals p q = (strict_eq (lat p) (lat q) \<and> strict_eq (lng p) (lng q))"

text \<open>
  The spec's matching condition: the unordered endpoint pair of the leg equals the pair
  of stop positions, under point equality.
\<close>

definition endpoints_equal :: "leg \<Rightarrow> point \<Rightarrow> point \<Rightarrow> bool" where
  "endpoints_equal l a b =
     (\<exists>s e. startPoint l = Some s \<and> endPoint l = Some e \<and>
        ((point_equals s a \<and> point_equals e b) \<or> (point_equals s b \<and> point_equals e a)))"

definition no_NaN :: "point \<Rightarrow> bool" where
  "no_NaN p = (lat p \<noteq> NaN \<and> lng p \<noteq> NaN)"

section \<open>Collaborators\<close>

text \<open>
  What the planner calls and its sources do not hold is a parameter here:
  \<^item> \<open>Number\<close>, the built-in conversion applied to the raw coordinates;
  \<^item> \<open>localeCompare\<close>, the built-in string comparison the sort comparator calls;
  \<^item> the Leaflet library (loaded from a CDN): \<open>latLng_error p\<close> is the message of the
    error its conversion of the point \<open>p\<close> throws, or \<open>None\<close> when it accepts
    \<open>p\<close>. \<open>bounds.extend\<close>, \<open>L.marker\<close>, \<open>L.polyline\<close> and \<open>map.panTo\<close> all
    convert the point they are given;
  \<^item> the browser's HTML parser: \<open>createTimeline\<close> writes the time, name, description
    and duration of a stop into its timeline node with \<open>innerHTML\<close>, and
    \<open>item_markup index stop\<close> is the forest of elements of class \<open>timeline-item\<close>
    that parsing this text creates inside the node (none for plain text);
  \<^item> \<open>undefined_message\<close>, the message of the TypeError that reading \<open>.position\<close>
    of \<open>undefined\<close> throws;
  \<^item> \<open>upperFirst s\<close>, the string \<open>s.charAt(0).toUpperCase() + s.slice(1)\<close>.
\<close>

datatype markup = Markup "markup list"

record env =
  Number :: "string \<Rightarrow> number"
  localeCompare :: "string \<Rightarrow> string \<Rightarrow> int"
  latLng_error :: "point \<Rightarrow> string option"
  item_markup :: "nat \<Rightarrow> locationInfo \<Rightarrow> markup list"
  undefined_message :: string
  upperFirst :: "string \<Rightarrow> string"

section \<open>Ordering the day plan\<close>

text \<open>\<open>a.sequence || Infinity\<close>: a missing sequence and the falsy number 0 give Infinity.\<close>

definition seq_or_Infinity :: "real option \<Rightarrow> number" where
  "seq_or_Infinity s = (case s of None \<Rightarrow> PInf | Some n \<Rightarrow> if n = 0 then PInf else Fin n)"

text \<open>
  The comparator of the sort in \<open>sendText\<close>:
  \<^verbatim>\<open>(a.sequence || Infinity) - (b.sequence || Infinity) || (a.time || '').localeCompare(b.time || '')\<close>
\<close>

definition compareFn :: "env \<Rightarrow> locationInfo \<Rightarrow> locationInfo \<Rightarrow> number" where
  "compareFn E a b =
     (let d = js_sub (seq_or_Infinity (sequence a)) (seq_or_Infinity (sequence b))
      in if truthy_num d then d
         else Fin (real_of_int (localeCompare E (str_or (time a) []) (str_or (time b) []))))"

text \<open>
  \<open>Array.prototype.sort\<close> with a comparator. The language fixes its result for a
  consistent comparator: the elements in comparator order, elements that compare equal in
  their original order (the sort is stable); a comparator result of NaN counts as 0.
  There is one such list (\<open>buildDayPlan_unique\<close> below), and stable insertion
  computes it: \<open>x\<close> moves behind \<open>y\<close> only when the comparator says \<open>x\<close> comes
  after \<open>y\<close>.
\<close>

definition comes_after :: "number \<Rightarrow> bool" where
  "comes_after v = (case v of PInf \<Rightarrow> True | Fin r \<Rightarrow> 0 < r | _ \<Rightarrow> False)"

fun insert_sorted :: "('a \<Rightarrow> 'a \<Rightarrow> number) \<Rightarrow> 'a \<Rightarrow> 'a list \<Rightarrow> 'a list" where
  "insert_sorted cmp x [] = [x]"
| "insert_sorted cmp x (y # ys) =
     (if comes_after (cmp x y) then y # insert_sorted cmp x ys else x # y # ys)"

definition array_sort :: "('a \<Rightarrow> 'a \<Rightarrow> number) \<Rightarrow> 'a list \<Rightarrow> 'a list" where
  "array_sort cmp xs = foldr (insert_sorted cmp) xs []"

text \<open>The sort call of \<open>sendText\<close>, which the spec names \<open>buildDayPlan\<close>.\<close>

definition buildDayPlan :: "env \<Rightarrow> locationInfo list \<Rightarrow> locationInfo list" where
  "buildDayPlan E stops = array_sort (compareFn E) stops"

text \<open>
  What the language asks of a comparison for the sort to be defined: here, of
  \<open>localeCompare\<close>.
\<close>

definition consistent :: "(string \<Rightarrow> string \<Rightarrow> int) \<Rightarrow> bool" where
  "consistent lc =
     ((\<forall>a. lc a a = 0) \<and> (\<forall>a b. (lc a b < 0) = (0 < lc b a)) \<and>
      (\<forall>a b c. lc a b \<le> 0 \<and> lc b c \<le> 0 \<longrightarrow> lc a c \<le> 0))"

text \<open>Ordinary lexicographic comparison of strings, as a comparison function.\<close>

definition lexCompare :: "string \<Rightarrow> string \<Rightarrow> int" where
  "lexCompare a b = (if a < b then - 1 else if a = b then 0 else 1)"

text \<open>
  The spec's composite key, in its words: the sequence if present, else +infinity; then
  the time if present, else the empty string.
\<close>

definition spec_seq_key :: "locationInfo \<Rightarrow> number" where
  "spec_seq_key s = (case sequence s of None \<Rightarrow> PInf | Some n \<Rightarrow> Fin n)"

definition spec_time_key :: "locationInfo \<Rightarrow> string" where
  "spec_time_key s = (case time s of None \<Rightarrow> [] | Some t \<Rightarrow> t)"

definition num_less :: "number \<Rightarrow> number \<Rightarrow> bool" where
  "num_less x y =
     (case (x, y) of
        (Fin a, Fin b) \<Rightarrow> a < b
      | (Fin a, PInf) \<Rightarrow> True
      | (NInf, Fin b) \<Rightarrow> True
      | (NInf, PInf) \<Rightarrow> True
      | _ \<Rightarrow> False)"

definition spec_key_le :: "(string \<Rightarrow> string \<Rightarrow> int) \<Rightarrow> locationInfo \<Rightarrow> locationInfo \<Rightarrow> bool" where
  "spec_key_le lc a b =
     (num_less (spec_seq_key a) (spec_seq_key b) \<or>
      (spec_seq_key a = spec_seq_key b \<and> lc (spec_time_key a) (spec_time_key b) \<le> 0))"

text \<open>The key the code sorts by: a sequence of 0 counts as missing.\<close>

definition key_le :: "(string \<Rightarrow> string \<Rightarrow> int) \<Rightarrow> locationInfo \<Rightarrow> locationInfo \<Rightarrow> bool" where
  "key_le lc a b =
     (num_less (seq_or_Infinity (sequence a)) (seq_or_Infinity (sequence b)) \<or>
      (seq_or_Infinity (sequence a) = seq_or_Infinity (sequence b) \<and>
       lc (str_or (time a) []) (str_or (time b) []) \<le> 0))"

definition key_equiv :: "(string \<Rightarrow> string \<Rightarrow> int) \<Rightarrow> locationInfo \<Rightarrow> locationInfo \<Rightarrow> bool" where
  "key_equiv lc a b = (key_le lc a b \<and> key_le lc b a)"

text \<open>A stop with its sequence removed when that sequence is 0.\<close>

definition zero_as_missing :: "locationInfo \<Rightarrow> locationInfo" where
  "zero_as_missing s = (if sequence s = Some 0 then s\<lparr>sequence := None\<rparr> else s)"

section \<open>Session state\<close>

datatype exn = Error string

text \<open>
  The elements of class \<open>timeline-item\<close> below the \<open>#timeline\<close> element, as a
  forest in document order: the node of a stop (with its \<open>data-index\<close>), an element
  that markup in a stop's text created, and a transport node. The children of a node are
  the elements of that class inside it.
\<close>

datatype node =
    LocationItem nat locationInfo "node list"
  | MarkupItem "node list"
  | TransportItem leg

text \<open>
  The module's variables. \<open>bounds\<close> is the list of points the Leaflet bounds object has
  been extended with, \<open>markers\<close> the positions of the markers added; \<open>timeline\<close> is
  the content of the \<open>#timeline\<close> element (\<open>None\<close> when the element is missing)
  and \<open>errorMessage\<close> the content of the \<open>#error-message\<close> element.
\<close>

record app_state =
  isMapInitialized :: bool
  points :: "point list"
  markers :: "point list"
  lines :: "leg list"
  popUps :: "locationInfo list"
  bounds :: "point list"
  dayPlanItinerary :: "locationInfo list"
  timeline :: "node list option"
  errorMessage :: string

definition restart :: "app_state \<Rightarrow> app_state" where
  "restart st =
     st\<lparr>points := [], dayPlanItinerary := [],
        bounds := (if isMapInitialized st then [] else bounds st),
        markers := [], lines := [], popUps := [],
        timeline := (case timeline st of None \<Rightarrow> None | Some _ \<Rightarrow> Some [])\<rparr>"

text \<open>
  \<open>setPin\<close>. The result is the exception thrown, if any, and the state left behind.
\<close>

definition setPin :: "env \<Rightarrow> location_args \<Rightarrow> app_state \<Rightarrow> exn option \<times> app_state" where
  "setPin E args st =
     (let point = \<lparr>lat = Number E (args_lat args), lng = Number E (args_lng args)\<rparr>;
          st1 = st\<lparr>points := points st @ [point]\<rparr>;
          locationInfo = \<lparr>name = args_name args, description = args_description args,
            position = point, time = args_time args, duration = args_duration args,
            sequence = args_sequence args\<rparr>
      in case (if isMapInitialized st1 then latLng_error E point else None) of
           Some msg \<Rightarrow> (Some (Error msg), st1)
         | None \<Rightarrow>
             (let st2 = (if isMapInitialized st1
                         then st1\<lparr>bounds := bounds st1 @ [point], markers := markers st1 @ [point]\<rparr>
                         else st1);
                  st3 = st2\<lparr>popUps := popUps st2 @ [locationInfo]\<rparr>
              in (None,
                  if truthy (args_time args)
                  then st3\<lparr>dayPlanItinerary := dayPlanItinerary st3 @ [locationInfo]\<rparr>
                  else st3)))"

definition setLeg :: "env \<Rightarrow> line_args \<Rightarrow> app_state \<Rightarrow> exn option \<times> app_state" where
  "setLeg E args st =
     (let start = \<lparr>lat = Number E (raw_lat (line_start args)),
                    lng = Number E (raw_lng (line_start args))\<rparr>;
          end = \<lparr>lat = Number E (raw_lat (line_end args)),
                  lng = Number E (raw_lng (line_end args))\<rparr>;
          st1 = st\<lparr>points := points st @ [start, end]\<rparr>;
          line = \<lparr>leg_name = line_name args, transport = line_transport args,
            travelTime = line_travelTime args, startPoint = Some start, endPoint = Some end\<rparr>
      in if isMapInitialized st1
         then (case latLng_error E start of
                 Some msg \<Rightarrow> (Some (Error msg), st1)
               | None \<Rightarrow>
                   (case latLng_error E end of
                      Some msg \<Rightarrow> (Some (Error msg), st1\<lparr>bounds := bounds st1 @ [start]\<rparr>)
                    | None \<Rightarrow>
                        (None, st1\<lparr>bounds := bounds st1 @ [start, end],
                                    lines := lines st1 @ [line]\<rparr>)))
         else (None, st1\<lparr>lines := lines st1 @ [line]\<rparr>))"

text \<open>
  The stop that \<open>setPin\<close> builds from a location record (its \<open>locationInfo\<close>);
  the spec names the conversion \<open>addStop\<close>.
\<close>

definition addStop :: "env \<Rightarrow> location_args \<Rightarrow> locationInfo" where
  "addStop E args =
     \<lparr>name = args_name args, description = args_description args,
      position = \<lparr>lat = Number E (args_lat args), lng = Number E (args_lng args)\<rparr>,
      time = args_time args, duration = args_duration args, sequence = args_sequence args\<rparr>"

text \<open>The element of \<open>lines\<close> that \<open>setLeg\<close> builds from a line record.\<close>

definition legOf :: "env \<Rightarrow> line_args \<Rightarrow> leg" where
  "legOf E args =
     \<lparr>leg_name = line_name args, transport = line_transport args,
      travelTime = line_travelTime args,
      startPoint = Some \<lparr>lat = Number E (raw_lat (line_start args)),
                          lng = Number E (raw_lng (line_start args))\<rparr>,
      endPoint = Some \<lparr>lat = Number E (raw_lat (line_end args)),
                        lng = Number E (raw_lng (line_end args))\<rparr>\<rparr>"

section \<open>The timeline\<close>

fun node_of :: "markup \<Rightarrow> node" where
  "node_of (Markup ms) = MarkupItem (map node_of ms)"

text \<open>\<open>querySelectorAll('.timeline-item').length\<close>: every node of the forest.\<close>

fun count_node :: "node \<Rightarrow> nat" where
  "count_node (LocationItem j s cs) = Suc (sum_list (map count_node cs))"
| "count_node (MarkupItem cs) = Suc (sum_list (map count_node cs))"
| "count_node (TransportItem l) = 1"

definition count_items :: "node list \<Rightarrow> nat" where
  "count_items nodes = sum_list (map count_node nodes)"

text \<open>
  \<open>timelineItems[k].after(t)\<close>. \<open>timelineItems\<close> is the static list taken before
  the loop, in document order; the loop adds transport nodes only, so its \<open>k\<close>-th
  element is the \<open>k\<close>-th node, in document order, that is not a transport node.
  \<open>t\<close> becomes the next sibling of that node. The result is the new forest, or the
  number of nodes still to skip when the forest has fewer than \<open>k + 1\<close> such nodes.
\<close>

fun insert_after :: "nat \<Rightarrow> node \<Rightarrow> node list \<Rightarrow> nat + node list" where
  "insert_after k t [] = Inl k"
| "insert_after k t (TransportItem l # rest) =
     (case insert_after k t rest of
        Inl k' \<Rightarrow> Inl k'
      | Inr rest' \<Rightarrow> Inr (TransportItem l # rest'))"
| "insert_after k t (LocationItem j s cs # rest) =
     (if k = 0 then Inr (LocationItem j s cs # t # rest)
      else (case insert_after (k - 1) t cs of
              Inr cs' \<Rightarrow> Inr (LocationItem j s cs' # rest)
            | Inl k' \<Rightarrow>
                (case insert_after k' t rest of
                   Inl k'' \<Rightarrow> Inl k''
                 | Inr rest' \<Rightarrow> Inr (LocationItem j s cs # rest'))))"
| "insert_after k t (MarkupItem cs # rest) =
     (if k = 0 then Inr (MarkupItem cs # t # rest)
      else (case insert_after (k - 1) t cs of
              Inr cs' \<Rightarrow> Inr (MarkupItem cs' # rest)
            | Inl k' \<Rightarrow>
                (case insert_after k' t rest of
                   Inl k'' \<Rightarrow> Inl k''
                 | Inr rest' \<Rightarrow> Inr (MarkupItem cs # rest'))))"

text \<open>
  One round of the \<open>for\<close> loop of \<open>createTimeline\<close> in which
  \<open>dayPlanItinerary[i + 1]\<close> exists. The loop keeps \<open>i\<close> below the length of
  \<open>timelineItems\<close>, so \<open>timelineItems[i]\<close> is a node; the case that the
  forest has no such node is written out only to make the function total.
\<close>

definition addTransport ::
  "leg list \<Rightarrow> locationInfo list \<Rightarrow> nat \<Rightarrow> node list \<Rightarrow> node list" where
  "addTransport ls plan i nodes =
     (case connectingLine ls (plan ! i) (plan ! (i + 1)) of
        None \<Rightarrow> nodes
      | Some l \<Rightarrow>
          if truthy (transport l) \<or> truthy (travelTime l)
          then (case insert_after i (TransportItem l) nodes of
                  Inr nodes' \<Rightarrow> nodes'
                | Inl k \<Rightarrow> nodes)
          else nodes)"

text \<open>
  The \<open>for\<close> loop, over the values of \<open>i\<close>. The loop runs to the number of nodes,
  not to the length of the day plan: when \<open>dayPlanItinerary[i + 1]\<close> is
  \<open>undefined\<close>, the predicate of \<open>lines.find\<close> throws at \<open>nextItem.position\<close> on
  the first line that has both points (and finds nothing when no line has). The result is
  the exception, if any, and the forest at that moment.
\<close>

fun transportLoop ::
  "env \<Rightarrow> leg list \<Rightarrow> locationInfo list \<Rightarrow> nat list \<Rightarrow> node list \<Rightarrow> exn option \<times> node list" where
  "transportLoop E ls plan [] nodes = (None, nodes)"
| "transportLoop E ls plan (i # rest) nodes =
     (if i + 1 < length plan
      then transportLoop E ls plan rest (addTransport ls plan i nodes)
      else if list_ex (\<lambda>line. startPoint line \<noteq> None \<and> endPoint line \<noteq> None) ls
      then (Some (Error (undefined_message E)), nodes)
      else transportLoop E ls plan rest nodes)"

text \<open>
  \<open>createTimeline\<close>. The result is the exception thrown, if any, and the state left
  behind.
\<close>

definition createTimeline :: "env \<Rightarrow> app_state \<Rightarrow> exn option \<times> app_state" where
  "createTimeline E st =
     (case timeline st of
        None \<Rightarrow> (None, st)
      | Some _ \<Rightarrow>
          if dayPlanItinerary st = [] then (None, st)
          else
            (let plan = dayPlanItinerary st;
                 children = map (\<lambda>index. LocationItem index (plan ! index)
                                    (map node_of (item_markup E index (plan ! index))))
                              [0..<length plan]
             in if lines st \<noteq> []
                then (case transportLoop E (lines st) plan [0..<count_items children - 1] children of
                        (thrown, nodes) \<Rightarrow> (thrown, st\<lparr>timeline := Some nodes\<rparr>))
                else (None, st\<lparr>timeline := Some children\<rparr>)))"

text \<open>No stop of the plan has text that creates an element of class \<open>timeline-item\<close>.\<close>

definition plain :: "env \<Rightarrow> locationInfo list \<Rightarrow> bool" where
  "plain E plan = (\<forall>i < length plan. item_markup E i (plan ! i) = [])"

section \<open>Processing a response\<close>

datatype functionCall = LocationCall location_args | LineCall line_args | OtherCall string

fun processCalls :: "env \<Rightarrow> functionCall list \<Rightarrow> app_state \<Rightarrow> exn option \<times> app_state" where
  "processCalls E [] st = (None, st)"
| "processCalls E (fn # rest) st =
     (case (case fn of
              LocationCall args \<Rightarrow> setPin E args st
            | LineCall args \<Rightarrow> setLeg E args st
            | OtherCall _ \<Rightarrow> (None, st)) of
        (Some e, st') \<Rightarrow> (Some e, st')
      | (None, st') \<Rightarrow> processCalls E rest st')"

text \<open>
  The answer of the planning service: a failure (the request fails or the server answers
  with an error; the string is the message of the exception), or the function calls.
\<close>

datatype response = Failed string | Ok "functionCall list"

definition failure_text :: "string \<Rightarrow> string" where
  "failure_text msg =
     ''Failed to connect to the planning service. Ensure the Netlify URL is correct in the code. '' @ msg"

definition sendText :: "env \<Rightarrow> response \<Rightarrow> app_state \<Rightarrow> app_state" where
  "sendText E resp st0 =
     (let st = restart (st0\<lparr>errorMessage := []\<rparr>)
      in case resp of
           Failed msg \<Rightarrow> st\<lparr>errorMessage := failure_text msg\<rparr>
         | Ok functionCalls \<Rightarrow>
             if functionCalls = []
             then st\<lparr>errorMessage := failure_text
                    ''Could not generate any results. Try again, or try a different prompt.''\<rparr>
             else
               (case processCalls E functionCalls st of
                  (Some (Error msg), st') \<Rightarrow> st'\<lparr>errorMessage := failure_text msg\<rparr>
                | (None, st') \<Rightarrow>
                    if dayPlanItinerary st' \<noteq> []
                    then (case createTimeline E
                                 (st'\<lparr>dayPlanItinerary := buildDayPlan E (dayPlanItinerary st')\<rparr>) of
                            (Some (Error msg), st'') \<Rightarrow> st''\<lparr>errorMessage := failure_text msg\<rparr>
                          | (None, st'') \<Rightarrow> st'')
                    else st'))"

text \<open>The condition of \<open>setPin\<close> for the day plan: the stop has a time (\<open>if (args.time)\<close>).\<close>

definition timed :: "locationInfo \<Rightarrow> bool" where
  "timed s = truthy (time s)"

text \<open>The location records of a batch, in arrival order.\<close>

fun location_records :: "functionCall list \<Rightarrow> location_args list" where
  "location_records [] = []"
| "location_records (LocationCall args # rest) = args # location_records rest"
| "location_records (LineCall args # rest) = location_records rest"
| "location_records (OtherCall n # rest) = location_records rest"

section \<open>The exported itinerary\<close>

datatype itinerary_item = Location locationInfo | Transport leg

text \<open>
  Step 4 of \<open>exportDayPlan\<close>: the \<open>forEach\<close> over \<open>dayPlanItinerary\<close> that fills
  \<open>fullItinerary\<close>; \<open>index\<close> counts the stops already visited.
\<close>

fun mergeLegs ::
  "leg list \<Rightarrow> locationInfo list \<Rightarrow> nat \<Rightarrow> locationInfo list \<Rightarrow> itinerary_item list
     \<Rightarrow> itinerary_item list" where
  "mergeLegs ls plan index [] fullItinerary = fullItinerary"
| "mergeLegs ls plan index (item # rest) fullItinerary =
     (let full1 = fullItinerary @ [Location item]
      in mergeLegs ls plan (index + 1) rest
           (if index < length plan - 1
            then (case connectingLine ls item (plan ! (index + 1)) of
                    Some l \<Rightarrow> full1 @ [Transport l]
                  | None \<Rightarrow> full1)
            else full1))"

definition fullItinerary :: "app_state \<Rightarrow> itinerary_item list" where
  "fullItinerary st = mergeLegs (lines st) (dayPlanItinerary st) 0 (dayPlanItinerary st) []"

text \<open>
  This step is reached only when the statements before it return; the first of them,
  \<open>lines.forEach(line => line.setStyle(...))\<close>, throws on the plain objects that
  \<open>setLeg\<close> stores when the map is not initialised.

  The merge by recursion on the day plan, with a condition on the legs shown, as the
  spec's assembler describes it.
\<close>

fun assemble ::
  "(leg \<Rightarrow> bool) \<Rightarrow> leg list \<Rightarrow> locationInfo list \<Rightarrow> itinerary_item list" where
  "assemble shown ls [] = []"
| "assemble shown ls [a] = [Location a]"
| "assemble shown ls (a # b # rest) =
     Location a #
       (case connectingLine ls a b of
          Some l \<Rightarrow> if shown l then [Transport l] else []
        | None \<Rightarrow> []) @ assemble shown ls (b # rest)"

definition has_content :: "leg \<Rightarrow> bool" where
  "has_content l = (truthy (transport l) \<or> truthy (travelTime l))"

text \<open>
  The content of \<open>#timeline\<close> that \<open>createTimeline\<close> ends with when the text of
  the stops is plain, written by recursion on the day plan; \<open>k\<close> is the index of the
  first stop.
\<close>

definition shown_leg :: "leg list \<Rightarrow> locationInfo \<Rightarrow> locationInfo \<Rightarrow> node list" where
  "shown_leg ls a b =
     (case connectingLine ls a b of
        Some l \<Rightarrow> if has_content l then [TransportItem l] else []
      | None \<Rightarrow> [])"

fun timelineFrom :: "leg list \<Rightarrow> nat \<Rightarrow> locationInfo list \<Rightarrow> node list" where
  "timelineFrom ls k [] = []"
| "timelineFrom ls k [a] = [LocationItem k a []]"
| "timelineFrom ls k (a # b # rest) =
     LocationItem k a [] # shown_leg ls a b @ timelineFrom ls (k + 1) (b # rest)"

fun is_Location :: "itinerary_item \<Rightarrow> bool" where
  "is_Location (Location s) = True"
| "is_Location (Transport l) = False"

section \<open>Drawing the itinerary\<close>

text \<open>
  The jsPDF document, as \<open>drawItineraryOnPdf\<close> uses it: the page size and the two text
  measuring functions, which depend on the font size in force. Lengths are read as reals.
\<close>

record jsPDF =
  pageHeight :: real
  pageWidth :: real
  splitTextToSize :: "real \<Rightarrow> string \<Rightarrow> real \<Rightarrow> string list"
  textHeight :: "real \<Rightarrow> string list \<Rightarrow> real"

text \<open>The drawing calls made on the document (colours, fonts and line widths left out).\<close>

datatype instr =
    AddPage
  | DrawText "string list" real real
  | Circle real real real
  | Line real real real real

record pdf_state =
  y :: real
  fontSize :: real
  drawn :: "instr list"

definition margin :: real where
  "margin = 20"

definition timeX :: real where
  "timeX = margin"

definition connectorX :: real where
  "connectorX = timeX + 45"

definition contentX :: real where
  "contentX = connectorX + 15"

definition contentWidth :: "jsPDF \<Rightarrow> real" where
  "contentWidth doc = pageWidth doc - contentX - margin"

definition emit :: "instr \<Rightarrow> pdf_state \<Rightarrow> pdf_state" where
  "emit i s = s\<lparr>drawn := drawn s @ [i]\<rparr>"

definition checkPageBreak :: "jsPDF \<Rightarrow> real \<Rightarrow> pdf_state \<Rightarrow> pdf_state" where
  "checkPageBreak doc neededHeight s =
     (if y s + neededHeight > pageHeight doc - margin
      then (emit AddPage s)\<lparr>y := margin\<rparr>
      else s)"

definition transportText :: "env \<Rightarrow> leg \<Rightarrow> string" where
  "transportText E data = upperFirst E (str_or (transport data) ''Travel'')"

definition drawLocation :: "jsPDF \<Rightarrow> locationInfo \<Rightarrow> pdf_state \<Rightarrow> pdf_state" where
  "drawLocation doc data s =
     (let s1 = emit (DrawText [str_or (time data) []] timeX (y s)) (s\<lparr>fontSize := 12\<rparr>);
          s2 = emit (Circle connectorX (y s - 1) 3) s1;
          s3 = emit (DrawText [name data] contentX (y s)) (s2\<lparr>fontSize := 14\<rparr>);
          s4 = s3\<lparr>fontSize := 10\<rparr>;
          descriptionLines = splitTextToSize doc (fontSize s4) (description data) (contentWidth doc);
          s5 = emit (DrawText descriptionLines contentX (y s + 14)) s4;
          descHeight = textHeight doc (fontSize s5) descriptionLines;
          durationY = y s + 14 + descHeight + 6;
          s6 = (if truthy (duration data)
                then emit (DrawText [str_or (duration data) []] contentX durationY)
                       (s5\<lparr>fontSize := 9\<rparr>)
                else s5)
      in s6\<lparr>y := durationY + 20\<rparr>)"

definition drawTransport :: "env \<Rightarrow> jsPDF \<Rightarrow> leg \<Rightarrow> pdf_state \<Rightarrow> pdf_state" where
  "drawTransport E doc data s =
     (let s1 = emit (Circle connectorX (y s - 1) 3) s;
          s2 = emit (DrawText [transportText E data] contentX (y s)) (s1\<lparr>fontSize := 12\<rparr>);
          s3 = emit (DrawText [str_or (leg_name data) []] contentX (y s + 14)) (s2\<lparr>fontSize := 10\<rparr>);
          travelTimeY = y s + 14 + 12;
          s4 = (if truthy (travelTime data)
                then emit (DrawText [str_or (travelTime data) []] contentX travelTimeY)
                       (s3\<lparr>fontSize := 9\<rparr>)
                else s3)
      in s4\<lparr>y := travelTimeY + 20\<rparr>)"

text \<open>The body of the \<open>forEach\<close> of \<open>drawItineraryOnPdf\<close>.\<close>

definition drawItem ::
  "env \<Rightarrow> jsPDF \<Rightarrow> nat \<Rightarrow> nat \<Rightarrow> itinerary_item \<Rightarrow> pdf_state \<Rightarrow> pdf_state" where
  "drawItem E doc len index item s =
     (let textToMeasure = (case item of
                             Location data \<Rightarrow> description data
                           | Transport data \<Rightarrow> str_or (leg_name data) []);
          blockHeight = 40 + textHeight doc (fontSize s)
                               (splitTextToSize doc (fontSize s) textToMeasure (contentWidth doc));
          s1 = checkPageBreak doc blockHeight s;
          itemStartY = y s1;
          s2 = (case item of
                  Location data \<Rightarrow> drawLocation doc data s1
                | Transport data \<Rightarrow> drawTransport E doc data s1)
      in if index < len - 1
         then emit (Line connectorX (itemStartY + 4) connectorX (y s2 - 12)) s2
         else s2)"

fun drawItems ::
  "env \<Rightarrow> jsPDF \<Rightarrow> nat \<Rightarrow> nat \<Rightarrow> itinerary_item list \<Rightarrow> pdf_state \<Rightarrow> pdf_state" where
  "drawItems E doc len index [] s = s"
| "drawItems E doc len index (item # rest) s =
     drawItems E doc len (index + 1) rest (drawItem E doc len index item s)"

definition drawItineraryOnPdf :: "env \<Rightarrow> jsPDF \<Rightarrow> itinerary_item list \<Rightarrow> instr list" where
  "drawItineraryOnPdf E doc items =
     (let s0 = \<lparr>y = 40, fontSize = 22, drawn = [DrawText [''Your Doggy Day Plan''] margin 40]\<rparr>
      in drawn (drawItems E doc (length items) 0 items (s0\<lparr>y := y s0 + 25\<rparr>)))"

text \<open>
  An entry drawn at the top of a page: every drawing call of its branch of the loop body,
  with \<open>y = margin\<close>, and the value of \<open>y\<close> after it.
\<close>

definition placed :: "env \<Rightarrow> jsPDF \<Rightarrow> itinerary_item \<Rightarrow> instr list" where
  "placed E doc item =
     (case item of
        Location data \<Rightarrow>
          [DrawText [str_or (time data) []] timeX margin,
           Circle connectorX (margin - 1) 3,
           DrawText [name data] contentX margin,
           DrawText (splitTextToSize doc 10 (description data) (contentWidth doc)) contentX
             (margin + 14)] @
          (if truthy (duration data)
           then [DrawText [str_or (duration data) []] contentX
                   (margin + 14 +
                    textHeight doc 10 (splitTextToSize doc 10 (description data) (contentWidth doc))
                    + 6)]
           else [])
      | Transport data \<Rightarrow>
          [Circle connectorX (margin - 1) 3,
           DrawText [transportText E data] contentX margin,
           DrawText [str_or (leg_name data) []] contentX (margin + 14)] @
          (if truthy (travelTime data)
           then [DrawText [str_or (travelTime data) []] contentX (margin + 14 + 12)]
           else []))"

definition bottom :: "jsPDF \<Rightarrow> itinerary_item \<Rightarrow> real" where
  "bottom doc item =
     (case item of
        Location data \<Rightarrow>
          margin + 14 +
          textHeight doc 10 (splitTextToSize doc 10 (description data) (contentWidth doc)) + 6 + 20
      | Transport data \<Rightarrow> margin + 14 + 12 + 20)"

text \<open>
  One page per entry: a page break, the entry at the top of the page, and the connector
  line for every entry but the last.
\<close>

fun pages :: "env \<Rightarrow> jsPDF \<Rightarrow> nat \<Rightarrow> nat \<Rightarrow> itinerary_item list \<Rightarrow> instr list" where
  "pages E doc len index [] = []"
| "pages E doc len index (item # rest) =
     AddPage # placed E doc item @
     (if index < len - 1
      then [Line connectorX (margin + 4) connectorX (bottom doc item - 12)]
      else []) @
     pages E doc len (index + 1) rest"

section \<open>Sample data\<close>

text \<open>The two stops and the leg of the spec's end-to-end scenario, and variations of them.\<close>

definition park :: locationInfo where
  "park = \<lparr>name = ''Park'', description = ''Off-leash area'',
            position = \<lparr>lat = Fin 30.1, lng = Fin (- 97.1)\<rparr>,
            time = Some ''09:00'', duration = None, sequence = None\<rparr>"

definition cafe :: locationInfo where
  "cafe = \<lparr>name = ''Cafe'', description = ''Patio seating'',
            position = \<lparr>lat = Fin 30.2, lng = Fin (- 97.2)\<rparr>,
            time = Some ''11:00'', duration = Some ''1 hour'', sequence = None\<rparr>"

definition walk :: leg where
  "walk = \<lparr>leg_name = None, transport = Some ''walking'', travelTime = Some ''20 minutes'',
            startPoint = Some (position park), endPoint = Some (position cafe)\<rparr>"

text \<open>The same leg stored in the other direction.\<close>

definition walk_back :: leg where
  "walk_back = walk\<lparr>startPoint := Some (position cafe), endPoint := Some (position park)\<rparr>"

text \<open>A leg between the two stops with \<open>transport = ""\<close> and \<open>travelTime = ""\<close>.\<close>

definition bare_leg :: leg where
  "bare_leg = \<lparr>leg_name = Some ''Park to Cafe'', transport = Some [], travelTime = Some [],
                startPoint = Some (position park), endPoint = Some (position cafe)\<rparr>"

text \<open>A stop whose latitude did not parse, and a leg stored from exactly its position.\<close>

definition lost :: locationInfo where
  "lost = park\<lparr>name := ''Lost'', position := \<lparr>lat = NaN, lng = Fin (- 97.1)\<rparr>\<rparr>"

definition lost_leg :: leg where
  "lost_leg = walk\<lparr>startPoint := Some (position lost)\<rparr>"

text \<open>
  The stops of the spec's sorting example: sequences 3, 1 and none, times 10:00, 09:00 and
  08:00.
\<close>

definition third :: locationInfo where
  "third = park\<lparr>name := ''Third'', time := Some ''10:00'', sequence := Some 3\<rparr>"

definition first :: locationInfo where
  "first = park\<lparr>name := ''First'', time := Some ''09:00'', sequence := Some 1\<rparr>"

definition unnumbered :: locationInfo where
  "unnumbered = park\<lparr>name := ''Unnumbered'', time := Some ''08:00'', sequence := None\<rparr>"

text \<open>A stop with sequence 0 and the earliest time.\<close>

definition zeroth :: locationInfo where
  "zeroth = park\<lparr>name := ''Zeroth'', time := Some ''07:00'', sequence := Some 0\<rparr>"

text \<open>
  A stop whose description is markup of class \<open>timeline-item\<close>, a fourth stop, and a
  leg from the Cafe to it.
\<close>

definition promo :: locationInfo where
  "promo = \<lparr>name = ''Promo'', description = ''<div class=timeline-item></div>'',
             position = \<lparr>lat = Fin 30, lng = Fin (- 97)\<rparr>,
             time = Some ''08:00'', duration = None, sequence = None\<rparr>"

definition shop :: locationInfo where
  "shop = \<lparr>name = ''Shop'', description = ''Treats'',
            position = \<lparr>lat = Fin 30.3, lng = Fin (- 97.3)\<rparr>,
            time = Some ''12:00'', duration = None, sequence = None\<rparr>"

definition ride :: leg where
  "ride = \<lparr>leg_name = None, transport = Some ''driving'', travelTime = Some ''10 minutes'',
            startPoint = Some (position cafe), endPoint = Some (position shop)\<rparr>"

text \<open>
  A collaborator for the examples. It stands for the browser on the strings the examples
  use and is nothing more: \<open>Number\<close> on the coordinate strings (\<open>abc\<close> gives NaN),
  lexicographic comparison for \<open>localeCompare\<close>, a Leaflet that rejects a point with a
  NaN coordinate, a parser that finds one element of class \<open>timeline-item\<close> in the
  description of the stop Promo and none in the other texts, and the first letter made
  upper case for the lower-case ASCII letters.
\<close>

definition sample_Number :: "string \<Rightarrow> number" where
  "sample_Number s =
     (if s = ''30.1'' then Fin 30.1
      else if s = ''-97.1'' then Fin (- 97.1)
      else if s = ''30.2'' then Fin 30.2
      else if s = ''-97.2'' then Fin (- 97.2)
      else NaN)"

definition sample_upperFirst :: "string \<Rightarrow> string" where
  "sample_upperFirst s =
     (case s of
        [] \<Rightarrow> []
      | c # cs \<Rightarrow>
          (if CHR ''a'' \<le> c \<and> c \<le> CHR ''z'' then char_of (of_char c - (32::nat)) else c) # cs)"

definition sample_env :: env where
  "sample_env =
     \<lparr>Number = sample_Number, localeCompare = lexCompare,
      latLng_error =
        (\<lambda>p. if lat p = NaN \<or> lng p = NaN then Some ''Invalid LatLng object'' else None),
      item_markup =
        (\<lambda>index stop. if description stop = ''<div class=timeline-item></div>''
                       then [Markup []] else []),
      undefined_message = ''nextItem is undefined'',
      upperFirst = sample_upperFirst\<rparr>"

text \<open>
  The records of the spec's end-to-end scenario, a record whose latitude is not numeric,
  and a record without a time.
\<close>

definition park_args :: location_args where
  "park_args = \<lparr>args_name = ''Park'', args_description = ''Off-leash area'',
                 args_lat = ''30.1'', args_lng = ''-97.1'', args_time = Some ''09:00'',
                 args_duration = None, args_sequence = None\<rparr>"

definition cafe_args :: location_args where
  "cafe_args = \<lparr>args_name = ''Cafe'', args_description = ''Patio seating'',
                 args_lat = ''30.2'', args_lng = ''-97.2'', args_time = Some ''11:00'',
                 args_duration = Some ''1 hour'', args_sequence = None\<rparr>"

definition bad_args :: location_args where
  "bad_args = park_args\<lparr>args_name := ''Lost'', args_lat := ''abc'',
                          args_time := Some ''10:00''\<rparr>"

definition timeless_args :: location_args where
  "timeless_args = cafe_args\<lparr>args_name := ''Vet'', args_time := None\<rparr>"

definition walk_args :: line_args where
  "walk_args = \<lparr>line_name = None,
                 line_start = \<lparr>raw_lat = ''30.1'', raw_lng = ''-97.1''\<rparr>,
                 line_end = \<lparr>raw_lat = ''30.2'', raw_lng = ''-97.2''\<rparr>,
                 line_transport = Some ''walking'', line_travelTime = Some ''20 minutes''\<rparr>"

definition lost_stop :: locationInfo where
  "lost_stop = addStop sample_env bad_args"

definition empty_state :: app_state where
  "empty_state = \<lparr>isMapInitialized = False, points = [], markers = [], lines = [], popUps = [],
                   bounds = [], dayPlanItinerary = [], timeline = Some [], errorMessage = []\<rparr>"

definition map_state :: app_state where
  "map_state = empty_state\<lparr>isMapInitialized := True\<rparr>"

text \<open>
  A document whose page is lower than two margins; it measures a text by one line of the
  font size per wrapped line and does not wrap.
\<close>

definition tiny_doc :: jsPDF where
  "tiny_doc = \<lparr>pageHeight = 30, pageWidth = 200,
                splitTextToSize = (\<lambda>size text width. [text]),
                textHeight = (\<lambda>size ls. \<bar>size\<bar> * real (length ls))\<rparr>"

section \<open>Properties of leg matching\<close>

lemma connects_commute: "connects p1 p2 l = connects p2 p1 l"
  by (auto simp: connects_def split: option.splits)

lemma connects_endpoints_equal: "connects a b l = endpoints_equal l a b"
  by (auto simp: connects_def endpoints_equal_def point_equals_def split: option.splits)

lemma connects_NaN:
  "lat p1 = NaN \<or> lng p1 = NaN \<or> lat p2 = NaN \<or> lng p2 = NaN \<Longrightarrow> \<not> connects p1 p2 l"
  by (auto simp: connects_def strict_eq_def split: option.splits)

section \<open>The exported sequence and the timeline, by recursion on the day plan\<close>

lemma mergeLegs_assemble:
  "mergeLegs ls (pre @ rest) (length pre) rest acc = acc @ assemble (\<lambda>_. True) ls rest"
proof (induction rest arbitrary: pre acc)
  case Nil
  then show ?case by simp
next
  case (Cons item rest)
  show ?case
  proof (cases rest)
    case Nil
    then show ?thesis by simp
  next
    case (Cons b rest')
    have nth: "(pre @ item # b # rest') ! (length pre + 1) = b"
      by (simp add: nth_append)
    have "mergeLegs ls ((pre @ [item]) @ rest) (length (pre @ [item])) rest acc' =
          acc' @ assemble (\<lambda>_. True) ls rest" for acc'
      by (rule Cons.IH)
    then show ?thesis
      using Cons nth by (simp split: option.splits)
  qed
qed

lemma fullItinerary_assemble:
  "fullItinerary st = assemble (\<lambda>_. True) (lines st) (dayPlanItinerary st)"
  using mergeLegs_assemble [of "lines st" "[]" "dayPlanItinerary st" "[]"]
  by (simp add: fullItinerary_def)

lemma assemble_stops: "filter is_Location (assemble shown ls plan) = map Location plan"
  by (induction shown ls plan rule: assemble.induct) (auto split: option.splits)

lemma assemble_Nil_iff: "assemble shown ls plan = [] \<longleftrightarrow> plan = []"
  by (induction shown ls plan rule: assemble.induct) auto

lemma assemble_last:
  "plan \<noteq> [] \<Longrightarrow> last (assemble shown ls plan) = Location (last plan)"
  by (induction shown ls plan rule: assemble.induct) (auto simp: assemble_Nil_iff split: option.splits)

lemma assemble_shown:
  "Transport l \<in> set (assemble shown ls plan) \<Longrightarrow> shown l"
  by (induction shown ls plan rule: assemble.induct) (auto split: option.splits if_splits)

lemma assemble_split:
  "connectingLine ls a b = None \<Longrightarrow>
   assemble shown ls (xs @ a # b # ys) = assemble shown ls (xs @ [a]) @ assemble shown ls (b # ys)"
proof (induction xs)
  case Nil
  then show ?case by simp
next
  case (Cons x xs)
  then show ?case by (cases xs) (auto split: option.splits)
qed

lemma timelineFrom_snoc2:
  "timelineFrom ls j (xs @ [a, b]) =
     timelineFrom ls j (xs @ [a]) @ shown_leg ls a b @ [LocationItem (j + length xs + 1) b []]"
proof (induction xs arbitrary: j)
  case Nil
  then show ?case by simp
next
  case (Cons x xs)
  then show ?case by (cases xs) simp_all
qed

lemma insert_after_shown_leg:
  "insert_after k t (shown_leg ls a b @ zs) =
     (case insert_after k t zs of
        Inl k' \<Rightarrow> Inl k'
      | Inr zs' \<Rightarrow> Inr (shown_leg ls a b @ zs'))"
  by (simp add: shown_leg_def split: option.splits sum.splits)

lemma insert_after_timelineFrom:
  "insert_after (length xs) t (timelineFrom ls j (xs @ [a]) @ zs) =
     Inr (timelineFrom ls j (xs @ [a]) @ t # zs)"
proof (induction xs arbitrary: j)
  case Nil
  then show ?case by simp
next
  case (Cons x xs)
  have "insert_after (length xs) t (timelineFrom ls (Suc j) (xs @ [a]) @ zs) =
        Inr (timelineFrom ls (Suc j) (xs @ [a]) @ t # zs)"
    by (rule Cons.IH)
  then show ?case by (cases xs) (simp_all add: insert_after_shown_leg)
qed

lemma addTransport_fold:
  assumes "k < length plan"
  shows "fold (addTransport ls plan) [0..<k]
           (map (\<lambda>i. LocationItem i (plan ! i) []) [0..<length plan]) =
         timelineFrom ls 0 (take (k + 1) plan) @
         map (\<lambda>i. LocationItem i (plan ! i) []) [k + 1..<length plan]"
  using assms
proof (induction k)
  case 0
  then have "take 1 plan = [plan ! 0]"
    by (cases plan) simp_all
  moreover have "[0..<length plan] = 0 # [1..<length plan]"
    using 0 by (simp add: upt_conv_Cons)
  ultimately show ?case by simp
next
  case (Suc k)
  let ?node = "\<lambda>i. LocationItem i (plan ! i) []"
  let ?zs = "map ?node [Suc (Suc k)..<length plan]"
  have tk: "take (Suc k) plan = take k plan @ [plan ! k]"
    using Suc.prems by (simp add: take_Suc_conv_app_nth)
  have tk2: "take (Suc (Suc k)) plan = take k plan @ [plan ! k, plan ! Suc k]"
    using Suc.prems by (simp add: take_Suc_conv_app_nth)
  have len: "length (take k plan) = k"
    using Suc.prems by simp
  have rest: "map ?node [Suc k..<length plan] = ?node (Suc k) # ?zs"
    using Suc.prems by (simp add: upt_conv_Cons)
  have IH: "fold (addTransport ls plan) [0..<k] (map ?node [0..<length plan]) =
            timelineFrom ls 0 (take k plan @ [plan ! k]) @ ?node (Suc k) # ?zs"
    using Suc.IH Suc.prems tk rest by simp
  have target: "timelineFrom ls 0 (take (Suc k + 1) plan) @ ?zs =
        timelineFrom ls 0 (take k plan @ [plan ! k]) @ shown_leg ls (plan ! k) (plan ! Suc k) @
        ?node (Suc k) # ?zs"
    using timelineFrom_snoc2 [of ls 0 "take k plan" "plan ! k" "plan ! Suc k"] tk2 len by simp
  have ins: "insert_after k t (timelineFrom ls 0 (take k plan @ [plan ! k]) @ ?node (Suc k) # ?zs) =
        Inr (timelineFrom ls 0 (take k plan @ [plan ! k]) @ t # ?node (Suc k) # ?zs)" for t
    using insert_after_timelineFrom [of "take k plan" t ls 0 "plan ! k" "?node (Suc k) # ?zs"] len
    by simp
  have "addTransport ls plan k (timelineFrom ls 0 (take k plan @ [plan ! k]) @ ?node (Suc k) # ?zs) =
        timelineFrom ls 0 (take k plan @ [plan ! k]) @ shown_leg ls (plan ! k) (plan ! Suc k) @
        ?node (Suc k) # ?zs"
    by (simp add: addTransport_def shown_leg_def has_content_def ins split: option.splits)
  then show ?case
    using IH target by simp
qed

lemma connectingLine_Nil: "connectingLine [] a b = None"
  by (simp add: connectingLine_def)

lemma timelineFrom_no_lines:
  "timelineFrom [] k plan = map (\<lambda>i. LocationItem (k + i) (plan ! i) []) [0..<length plan]"
proof (induction "[]::leg list" k plan rule: timelineFrom.induct)
  case (1 k)
  then show ?case by simp
next
  case (2 k a)
  then show ?case by simp
next
  case (3 k a b rest)
  have "[0..<length (a # b # rest)] = 0 # map Suc [0..<length (b # rest)]"
    by (simp add: upt_conv_Cons map_Suc_upt del: upt_Suc)
  then show ?case
    using 3 by (simp add: shown_leg_def connectingLine_Nil comp_def del: upt_Suc)
qed

lemma transportLoop_in_plan:
  "\<forall>i \<in> set is. i + 1 < length plan \<Longrightarrow>
   transportLoop E ls plan is nodes = (None, fold (addTransport ls plan) is nodes)"
  by (induction "is" arbitrary: nodes) simp_all

lemma count_items_plain:
  "count_items (map (\<lambda>i. LocationItem i (f i) []) is) = length is"
  by (induction "is") (simp_all add: count_items_def)

lemma plain_children:
  assumes "plain E plan"
  shows "map (\<lambda>index. LocationItem index (plan ! index)
                 (map node_of (item_markup E index (plan ! index)))) [0..<length plan] =
         map (\<lambda>i. LocationItem i (plan ! i) []) [0..<length plan]"
  using assms by (simp add: plain_def)

text \<open>
  With plain text, \<open>createTimeline\<close> returns, and the timeline is the day plan with the
  shown legs between the stops they connect.
\<close>

lemma createTimeline_closed:
  assumes "timeline st = Some old" and "plain E (dayPlanItinerary st)"
  shows "createTimeline E st =
         (None, st\<lparr>timeline := Some (if dayPlanItinerary st = [] then old
                                        else timelineFrom (lines st) 0 (dayPlanItinerary st))\<rparr>)"
proof (cases "dayPlanItinerary st = []")
  case True
  then show ?thesis using assms(1) by (simp add: createTimeline_def)
next
  case False
  let ?plan = "dayPlanItinerary st"
  let ?children = "map (\<lambda>i. LocationItem i (?plan ! i) []) [0..<length ?plan]"
  have k: "length ?plan - 1 < length ?plan"
    using False by (cases ?plan) simp_all
  have count: "count_items ?children = length ?plan"
    by (simp add: count_items_plain)
  have "\<forall>i \<in> set [0..<length ?plan - 1]. i + 1 < length ?plan"
    by auto
  then have loop: "transportLoop E (lines st) ?plan [0..<length ?plan - 1] ?children =
      (None, fold (addTransport (lines st) ?plan) [0..<length ?plan - 1] ?children)"
    by (rule transportLoop_in_plan)
  have "fold (addTransport (lines st) ?plan) [0..<length ?plan - 1] ?children =
        timelineFrom (lines st) 0 ?plan"
    using addTransport_fold [OF k, of "lines st"] False by (cases ?plan) simp_all
  moreover have "lines st = [] \<Longrightarrow> ?children = timelineFrom (lines st) 0 ?plan"
    using timelineFrom_no_lines [of 0 ?plan] by simp
  ultimately show ?thesis
    using assms(1) False loop count
    by (simp add: createTimeline_def Let_def plain_children [OF assms(2)])
qed

lemma timelineFrom_shown:
  "TransportItem l \<in> set (timelineFrom ls k plan) \<Longrightarrow> has_content l"
  by (induction ls k plan rule: timelineFrom.induct)
     (auto simp: shown_leg_def split: option.splits if_splits)

lemma connectingLine_commute: "connectingLine ls a b = connectingLine ls b a"
proof -
  have "connects (position a) (position b) = connects (position b) (position a)"
    by (rule ext) (rule connects_commute)
  then show ?thesis by (simp add: connectingLine_def)
qed

lemma connects_stored:
  assumes "no_NaN pa" "no_NaN pb"
    and "(startPoint l = Some pa \<and> endPoint l = Some pb) \<or>
         (startPoint l = Some pb \<and> endPoint l = Some pa)"
  shows "connects pa pb l"
  using assms by (auto simp: connects_def no_NaN_def strict_eq_def)

lemma connectingLine_None_iff:
  "connectingLine ls a b = None \<longleftrightarrow> (\<forall>l \<in> set ls. \<not> connects (position a) (position b) l)"
  by (auto simp: connectingLine_def find_None_iff)

lemma connectingLine_Some_iff:
  "connectingLine ls a b = Some l \<longleftrightarrow>
     (\<exists>i<length ls. ls ! i = l \<and> connects (position a) (position b) l \<and>
        (\<forall>j<i. \<not> connects (position a) (position b) (ls ! j)))"
  by (auto simp: connectingLine_def find_Some_iff)

lemma assemble_snoc:
  "\<exists>pre. assemble shown ls (xs @ [a]) = pre @ [Location a] \<and>
         filter is_Location pre = map Location xs"
proof -
  let ?out = "assemble shown ls (xs @ [a])"
  have ne: "?out \<noteq> []"
    by (simp add: assemble_Nil_iff)
  have "last ?out = Location a"
    using assemble_last [of "xs @ [a]" shown ls] by simp
  then have out: "?out = butlast ?out @ [Location a]"
    using ne append_butlast_last_id [of ?out] by simp
  have "filter is_Location (butlast ?out @ [Location a]) = map Location (xs @ [a])"
    using out assemble_stops [of shown ls "xs @ [a]"] by simp
  then have "filter is_Location (butlast ?out) = map Location xs"
    by simp
  then show ?thesis
    using out by blast
qed

lemma timelineFrom_split:
  "timelineFrom ls j (xs @ a # b # ys) =
     timelineFrom ls j (xs @ [a]) @ shown_leg ls a b @ timelineFrom ls (j + length xs + 1) (b # ys)"
proof (induction xs arbitrary: j)
  case Nil
  then show ?case by simp
next
  case (Cons x xs)
  then show ?case by (cases xs) simp_all
qed

lemma timelineFrom_snoc:
  "\<exists>pre. timelineFrom ls j (xs @ [a]) = pre @ [LocationItem (j + length xs) a []]"
proof (induction xs arbitrary: j)
  case Nil
  then show ?case by simp
next
  case (Cons x xs)
  obtain pre where "timelineFrom ls (Suc j) (xs @ [a]) = pre @ [LocationItem (Suc j + length xs) a []]"
    using Cons.IH by blast
  then have "timelineFrom ls j ((x # xs) @ [a]) =
      (LocationItem j x [] # shown_leg ls x (hd (xs @ [a])) @ pre) @
      [LocationItem (j + length (x # xs)) a []]"
    by (cases xs) simp_all
  then show ?case by blast
qed

lemma timelineFrom_Cons:
  "\<exists>post. timelineFrom ls k (b # ys) = LocationItem k b [] # post"
  by (cases ys) simp_all

lemma assemble_Cons:
  "\<exists>post. assemble shown ls (b # ys) = Location b # post"
  by (cases ys) simp_all

lemma shown_leg_None: "connectingLine ls a b = None \<Longrightarrow> shown_leg ls a b = []"
  by (simp add: shown_leg_def)

lemma unconnected_export:
  assumes "connectingLine (lines st) a b = None" and "dayPlanItinerary st = xs @ a # b # ys"
  shows "\<exists>pre post. fullItinerary st = pre @ [Location a, Location b] @ post \<and>
           filter is_Location pre = map Location xs"
proof -
  obtain pre where pre: "assemble (\<lambda>_. True) (lines st) (xs @ [a]) = pre @ [Location a]"
      "filter is_Location pre = map Location xs"
    using assemble_snoc by blast
  obtain post where post: "assemble (\<lambda>_. True) (lines st) (b # ys) = Location b # post"
    using assemble_Cons by blast
  have "fullItinerary st = pre @ [Location a, Location b] @ post"
    using assms pre(1) post by (simp add: fullItinerary_assemble assemble_split)
  then show ?thesis
    using pre(2) by blast
qed

lemma unconnected_timeline:
  assumes "connectingLine (lines st) a b = None" and "dayPlanItinerary st = xs @ a # b # ys"
    and "timeline st = Some old" and "plain E (dayPlanItinerary st)"
  shows "\<exists>pre post. createTimeline E st =
           (None, st\<lparr>timeline :=
              Some (pre @ [LocationItem (length xs) a [], LocationItem (length xs + 1) b []] @
                    post)\<rparr>)"
proof -
  obtain pre where pre: "timelineFrom (lines st) 0 (xs @ [a]) = pre @ [LocationItem (length xs) a []]"
    using timelineFrom_snoc [of "lines st" 0 xs a] by auto
  obtain post where post:
    "timelineFrom (lines st) (length xs + 1) (b # ys) = LocationItem (length xs + 1) b [] # post"
    using timelineFrom_Cons by blast
  have "timelineFrom (lines st) 0 (xs @ a # b # ys) =
        pre @ [LocationItem (length xs) a [], LocationItem (length xs + 1) b []] @ post"
    using timelineFrom_split [of "lines st" 0 xs a b ys] pre post assms(1)
    by (simp add: shown_leg_None)
  then show ?thesis
    using createTimeline_closed [OF assms(3,4)] assms(2) by auto
qed

lemma assemble_hd: "plan \<noteq> [] \<Longrightarrow> hd (assemble shown ls plan) = Location (hd plan)"
  by (induction shown ls plan rule: assemble.induct) simp_all

lemma assemble_legs_Suc:
  "plan \<noteq> [] \<Longrightarrow>
   Suc (length (filter (\<lambda>e. \<not> is_Location e) (assemble shown ls plan))) \<le> length plan"
  by (induction shown ls plan rule: assemble.induct) (auto split: option.splits)

lemma eval_upt:
  "[0..<Suc 0] = [0]" "[0..<2] = [0, 1]" "[0..<3] = [0, 1, 2]" "[0..<4] = [0, 1, 2, 3]"
  by (simp_all add: upt_rec)

lemma assemble_split_Some:
  "connectingLine ls a b = Some l \<Longrightarrow>
   assemble shown ls (xs @ a # b # ys) =
     assemble shown ls (xs @ [a]) @ (if shown l then [Transport l] else []) @
     assemble shown ls (b # ys)"
proof (induction xs)
  case Nil
  then show ?case by simp
next
  case (Cons x xs)
  then show ?case by (cases xs) (auto split: option.splits)
qed

text \<open>
  A matched leg without transport and travel time is part of the exported sequence, and
  is left out of the timeline (shown here for plain text).
\<close>

lemma content_free_leg:
  assumes "\<not> truthy (transport l)" and "\<not> truthy (travelTime l)"
    and "dayPlanItinerary st = xs @ a # b # ys" and "connectingLine (lines st) a b = Some l"
    and "timeline st = Some old" and "plain E (dayPlanItinerary st)"
  shows "(\<exists>nodes. createTimeline E st = (None, st\<lparr>timeline := Some nodes\<rparr>) \<and>
            TransportItem l \<notin> set nodes) \<and>
         (\<exists>pre post. fullItinerary st = pre @ [Location a, Transport l, Location b] @ post)"
proof
  let ?nodes = "timelineFrom (lines st) 0 (dayPlanItinerary st)"
  have tl: "createTimeline E st = (None, st\<lparr>timeline := Some ?nodes\<rparr>)"
    using createTimeline_closed [OF assms(5,6)] assms(3) by simp
  have "TransportItem l \<notin> set ?nodes"
    using timelineFrom_shown [of l "lines st" 0 "dayPlanItinerary st"] assms(1,2)
    by (auto simp: has_content_def)
  then show "\<exists>nodes. createTimeline E st = (None, st\<lparr>timeline := Some nodes\<rparr>) \<and>
            TransportItem l \<notin> set nodes"
    using tl by blast
next
  obtain pre where pre: "assemble (\<lambda>_. True) (lines st) (xs @ [a]) = pre @ [Location a]"
    using assemble_snoc by blast
  obtain post where post: "assemble (\<lambda>_. True) (lines st) (b # ys) = Location b # post"
    using assemble_Cons by blast
  have "fullItinerary st = pre @ [Location a, Transport l, Location b] @ post"
    using assms(3,4) pre post by (simp add: fullItinerary_assemble assemble_split_Some)
  then show "\<exists>pre post. fullItinerary st = pre @ [Location a, Transport l, Location b] @ post"
    by blast
qed

section \<open>Properties of the sort\<close>

lemma comes_after_compareFn:
  "comes_after (compareFn E a b) \<longleftrightarrow> \<not> key_le (localeCompare E) a b"
  by (auto simp: compareFn_def key_le_def comes_after_def truthy_num_def seq_or_Infinity_def
      num_less_def Let_def split: option.splits)

lemma key_le_total:
  assumes "consistent lc"
  shows "key_le lc a b \<or> key_le lc b a"
proof -
  have "lc x y \<le> 0 \<or> lc y x \<le> 0" for x y
    using assms unfolding consistent_def by (metis not_le order_less_imp_le)
  then show ?thesis
    by (auto simp: key_le_def seq_or_Infinity_def num_less_def split: option.splits)
qed

lemma key_le_trans:
  assumes "consistent lc" "key_le lc a b" "key_le lc b c"
  shows "key_le lc a c"
proof -
  have tr: "lc x y \<le> 0 \<Longrightarrow> lc y z \<le> 0 \<Longrightarrow> lc x z \<le> 0" for x y z
    using assms(1) unfolding consistent_def by blast
  show ?thesis
    using assms(2,3) tr [of "str_or (time a) []" "str_or (time b) []" "str_or (time c) []"]
    by (auto simp: key_le_def seq_or_Infinity_def num_less_def split: option.splits if_splits)
qed

lemma consistent_lexCompare: "consistent lexCompare"
  unfolding consistent_def lexCompare_def by auto

lemma mset_insert_sorted: "mset (insert_sorted cmp x ys) = add_mset x (mset ys)"
  by (induction ys) simp_all

lemma mset_array_sort: "mset (array_sort cmp xs) = mset xs"
  by (induction xs) (simp_all add: array_sort_def mset_insert_sorted)

lemma set_insert_sorted: "set (insert_sorted cmp x ys) = insert x (set ys)"
  by (induction ys) auto

lemma sorted_insert_sorted:
  assumes total: "\<And>a b. le a b \<or> le b a"
    and trans: "\<And>a b c. le a b \<Longrightarrow> le b c \<Longrightarrow> le a c"
    and cmp: "\<And>a b. comes_after (cmp a b) \<longleftrightarrow> \<not> le a b"
    and "sorted_wrt le ys"
  shows "sorted_wrt le (insert_sorted cmp x ys)"
  using assms(4)
proof (induction ys)
  case Nil
  then show ?case by simp
next
  case (Cons y ys)
  show ?case
  proof (cases "comes_after (cmp x y)")
    case True
    then have "le y x"
      using total [of x y] cmp [of x y] by blast
    then show ?thesis
      using True Cons by (auto simp: set_insert_sorted)
  next
    case False
    then have "le x y"
      using cmp [of x y] by blast
    then have "\<forall>z \<in> set ys. le x z"
      using Cons.prems trans by auto
    then show ?thesis
      using False Cons.prems \<open>le x y\<close> by simp
  qed
qed

lemma sorted_array_sort:
  assumes total: "\<And>a b. le a b \<or> le b a"
    and trans: "\<And>a b c. le a b \<Longrightarrow> le b c \<Longrightarrow> le a c"
    and cmp: "\<And>a b. comes_after (cmp a b) \<longleftrightarrow> \<not> le a b"
  shows "sorted_wrt le (array_sort cmp xs)"
proof (induction xs)
  case Nil
  then show ?case by (simp add: array_sort_def)
next
  case (Cons x xs)
  have "sorted_wrt le (insert_sorted cmp x (array_sort cmp xs))"
    using total trans cmp Cons.IH by (rule sorted_insert_sorted)
  then show ?case by (simp add: array_sort_def)
qed

lemma filter_insert_sorted:
  assumes "\<And>y. P x \<Longrightarrow> P y \<Longrightarrow> \<not> comes_after (cmp x y)"
  shows "filter P (insert_sorted cmp x ys) = filter P (x # ys)"
  using assms by (induction ys) auto

lemma filter_array_sort:
  assumes "\<And>x y. P x \<Longrightarrow> P y \<Longrightarrow> \<not> comes_after (cmp x y)"
  shows "filter P (array_sort cmp xs) = filter P xs"
proof (induction xs)
  case Nil
  then show ?case by (simp add: array_sort_def)
next
  case (Cons x xs)
  have "filter P (insert_sorted cmp x (array_sort cmp xs)) = filter P (x # array_sort cmp xs)"
    using assms by (rule filter_insert_sorted)
  then show ?case
    using Cons.IH by (simp add: array_sort_def)
qed

lemma insert_sorted_map:
  assumes "\<And>a b. cmp (f a) (f b) = cmp a b"
  shows "insert_sorted cmp (f x) (map f ys) = map f (insert_sorted cmp x ys)"
  using assms by (induction ys) simp_all

lemma array_sort_map:
  assumes "\<And>a b. cmp (f a) (f b) = cmp a b"
  shows "array_sort cmp (map f xs) = map f (array_sort cmp xs)"
proof (induction xs)
  case Nil
  then show ?case by (simp add: array_sort_def)
next
  case (Cons x xs)
  have "insert_sorted cmp (f x) (map f (array_sort cmp xs)) =
        map f (insert_sorted cmp x (array_sort cmp xs))"
    using assms by (rule insert_sorted_map)
  then show ?case
    using Cons.IH by (simp add: array_sort_def)
qed

lemma buildDayPlan_sorted:
  assumes "consistent (localeCompare E)"
  shows "sorted_wrt (key_le (localeCompare E)) (buildDayPlan E stops)"
  unfolding buildDayPlan_def
proof (rule sorted_array_sort)
  show "key_le (localeCompare E) a b \<or> key_le (localeCompare E) b a" for a b
    using assms by (rule key_le_total)
  show "key_le (localeCompare E) a b \<Longrightarrow> key_le (localeCompare E) b c \<Longrightarrow>
        key_le (localeCompare E) a c" for a b c
    using assms by (rule key_le_trans)
  show "comes_after (compareFn E a b) \<longleftrightarrow> \<not> key_le (localeCompare E) a b" for a b
    by (rule comes_after_compareFn)
qed

lemma buildDayPlan_stable:
  assumes "consistent (localeCompare E)"
  shows "filter (key_equiv (localeCompare E) z) (buildDayPlan E stops) =
         filter (key_equiv (localeCompare E) z) stops"
  unfolding buildDayPlan_def
proof (rule filter_array_sort)
  fix x y
  assume "key_equiv (localeCompare E) z x" "key_equiv (localeCompare E) z y"
  then have "key_le (localeCompare E) x y"
    using key_le_trans [OF assms] unfolding key_equiv_def by blast
  then show "\<not> comes_after (compareFn E x y)"
    by (simp add: comes_after_compareFn)
qed

lemma seq_or_Infinity_zero_as_missing:
  "seq_or_Infinity (sequence (zero_as_missing s)) = seq_or_Infinity (sequence s)"
  by (simp add: zero_as_missing_def seq_or_Infinity_def)

lemma time_zero_as_missing: "time (zero_as_missing s) = time s"
  by (simp add: zero_as_missing_def)

lemma compareFn_zero_as_missing:
  "compareFn E (zero_as_missing a) (zero_as_missing b) = compareFn E a b"
  by (simp add: compareFn_def Let_def seq_or_Infinity_zero_as_missing time_zero_as_missing)

lemma buildDayPlan_zero_as_missing:
  "buildDayPlan E (map zero_as_missing stops) = map zero_as_missing (buildDayPlan E stops)"
  unfolding buildDayPlan_def by (rule array_sort_map) (rule compareFn_zero_as_missing)

lemma compareFn_zero_left: "compareFn E (zero_as_missing a) b = compareFn E a b"
  by (simp add: compareFn_def Let_def seq_or_Infinity_zero_as_missing time_zero_as_missing)

lemma compareFn_zero_right: "compareFn E a (zero_as_missing b) = compareFn E a b"
  by (simp add: compareFn_def Let_def seq_or_Infinity_zero_as_missing time_zero_as_missing)

lemma length_buildDayPlan: "length (buildDayPlan E stops) = length stops"
  using mset_array_sort [of "compareFn E" stops] unfolding buildDayPlan_def
  by (metis size_mset)

text \<open>
  The day plan is the only sorted arrangement of the stops that keeps equal keys in arrival
  order: any sort that meets the language's contract returns it.
\<close>

lemma key_le_refl: "consistent lc \<Longrightarrow> key_le lc a a"
  by (simp add: key_le_def consistent_def)

lemma key_equiv_class:
  assumes "consistent lc" "key_equiv lc z x"
  shows "key_equiv lc z = key_equiv lc x"
proof (rule ext)
  fix w
  show "key_equiv lc z w = key_equiv lc x w"
    using assms key_le_trans [OF assms(1)] unfolding key_equiv_def by blast
qed

lemma sorted_stable_unique:
  assumes c: "consistent lc"
    and "sorted_wrt (key_le lc) xs" and "sorted_wrt (key_le lc) ys"
    and "\<forall>z. filter (key_equiv lc z) xs = filter (key_equiv lc z) ys"
  shows "xs = ys"
  using assms(2-4)
proof (induction xs arbitrary: ys)
  case Nil
  show ?case
  proof (cases ys)
    case Nil
    then show ?thesis by simp
  next
    case (Cons y ys')
    have "key_equiv lc y y"
      using c by (simp add: key_equiv_def key_le_refl)
    then have "filter (key_equiv lc y) ys \<noteq> []"
      using Cons by simp
    then show ?thesis
      using Nil.prems(3) by simp
  qed
next
  case (Cons x xs)
  have xx: "key_equiv lc x x"
    using c by (simp add: key_equiv_def key_le_refl)
  have "filter (key_equiv lc x) ys \<noteq> []"
    using Cons.prems(3) xx by (metis filter.simps(2) list.distinct(1))
  then obtain y ys' where ys: "ys = y # ys'"
    by (cases ys) auto
  have yy: "key_equiv lc y y"
    using c by (simp add: key_equiv_def key_le_refl)
  have "y \<in> set (filter (key_equiv lc y) (x # xs))"
    using Cons.prems(3) ys yy by simp
  then have "y \<in> set (x # xs)"
    by (meson filter_is_subset subsetD)
  then have "key_le lc x y"
    using Cons.prems(1) xx by (auto simp: key_equiv_def)
  moreover have "x \<in> set (filter (key_equiv lc x) (y # ys'))"
    using Cons.prems(3) ys xx by (metis filter.simps(2) list.set_intros(1))
  then have "x \<in> set (y # ys')"
    by (meson filter_is_subset subsetD)
  then have "key_le lc y x"
    using Cons.prems(2) ys yy by (auto simp: key_equiv_def)
  ultimately have xy: "key_equiv lc x y"
    by (simp add: key_equiv_def)
  have "filter (key_equiv lc x) (x # xs) = filter (key_equiv lc x) (y # ys')"
    using Cons.prems(3) ys by simp
  then have eq: "x = y"
    using xx xy by simp
  have "filter (key_equiv lc z) xs = filter (key_equiv lc z) ys'" for z
  proof -
    have "filter (key_equiv lc z) (x # xs) = filter (key_equiv lc z) (x # ys')"
      using Cons.prems(3) ys eq by simp
    then show ?thesis
      by (cases "key_equiv lc z x") simp_all
  qed
  then have "xs = ys'"
    using Cons.IH [of ys'] Cons.prems(1,2) ys by simp
  then show ?case
    using ys eq by simp
qed

lemma buildDayPlan_unique:
  assumes "consistent (localeCompare E)"
    and "sorted_wrt (key_le (localeCompare E)) ys"
    and "\<forall>z. filter (key_equiv (localeCompare E) z) ys = filter (key_equiv (localeCompare E) z) stops"
  shows "ys = buildDayPlan E stops"
proof (rule sorted_stable_unique [OF assms(1,2)])
  show "sorted_wrt (key_le (localeCompare E)) (buildDayPlan E stops)"
    using assms(1) by (rule buildDayPlan_sorted)
  show "\<forall>z. filter (key_equiv (localeCompare E) z) ys =
            filter (key_equiv (localeCompare E) z) (buildDayPlan E stops)"
    using assms(3) buildDayPlan_stable [OF assms(1)] by simp
qed

section \<open>Properties of processing a response\<close>

lemma setPin_returns:
  "fst (setPin E args st) = None \<longleftrightarrow>
     \<not> isMapInitialized st \<or>
     latLng_error E \<lparr>lat = Number E (args_lat args), lng = Number E (args_lng args)\<rparr> = None"
  by (auto simp: setPin_def Let_def split: option.splits)

lemma setPin_None:
  assumes "setPin E args st = (None, st')"
  shows "popUps st' = popUps st @ [addStop E args]"
    and "dayPlanItinerary st' =
           (if truthy (args_time args) then dayPlanItinerary st @ [addStop E args]
            else dayPlanItinerary st)"
    and "points st' = points st @ [position (addStop E args)]"
    and "bounds st' = (if isMapInitialized st then bounds st @ [position (addStop E args)]
                       else bounds st)"
    and "markers st' = (if isMapInitialized st then markers st @ [position (addStop E args)]
                        else markers st)"
    and "lines st' = lines st" and "errorMessage st' = errorMessage st"
    and "isMapInitialized st' = isMapInitialized st" and "timeline st' = timeline st"
  using assms
  by (auto simp: setPin_def addStop_def Let_def split: option.splits if_splits)

lemma setPin_Some:
  assumes "setPin E args st = (Some e, st')"
  shows "popUps st' = popUps st" and "dayPlanItinerary st' = dayPlanItinerary st"
    and "errorMessage st' = errorMessage st"
  using assms
  by (auto simp: setPin_def Let_def split: option.splits if_splits)

lemma setLeg_returns:
  "fst (setLeg E args st) = None \<longleftrightarrow>
     \<not> isMapInitialized st \<or>
     (latLng_error E \<lparr>lat = Number E (raw_lat (line_start args)),
                       lng = Number E (raw_lng (line_start args))\<rparr> = None \<and>
      latLng_error E \<lparr>lat = Number E (raw_lat (line_end args)),
                       lng = Number E (raw_lng (line_end args))\<rparr> = None)"
  by (auto simp: setLeg_def Let_def split: option.splits)

lemma setLeg_fields:
  assumes "setLeg E args st = (r, st')"
  shows "popUps st' = popUps st" and "dayPlanItinerary st' = dayPlanItinerary st"
    and "errorMessage st' = errorMessage st"
    and "isMapInitialized st' = isMapInitialized st" and "timeline st' = timeline st"
    and "set (points st) \<subseteq> set (points st')" and "set (bounds st) \<subseteq> set (bounds st')"
  using assms
  by (auto simp: setLeg_def Let_def split: option.splits if_splits)

lemma processCalls_None:
  assumes "processCalls E calls st = (None, st')"
  shows "popUps st' = popUps st @ map (addStop E) (location_records calls) \<and>
         dayPlanItinerary st' =
           dayPlanItinerary st @ filter timed (map (addStop E) (location_records calls)) \<and>
         errorMessage st' = errorMessage st \<and> isMapInitialized st' = isMapInitialized st \<and>
         timeline st' = timeline st \<and>
         set (points st) \<union> position ` addStop E ` set (location_records calls)
           \<subseteq> set (points st') \<and>
         (isMapInitialized st \<longrightarrow>
            set (bounds st) \<union> position ` addStop E ` set (location_records calls)
              \<subseteq> set (bounds st'))"
  using assms
proof (induction calls arbitrary: st)
  case Nil
  then show ?case by simp
next
  case (Cons fn rest)
  show ?case
  proof (cases fn)
    case (LocationCall args)
    obtain r st1 where s: "setPin E args st = (r, st1)"
      by (cases "setPin E args st")
    have r: "r = None"
      using Cons.prems LocationCall s by (cases r) simp_all
    have rest: "processCalls E rest st1 = (None, st')"
      using Cons.prems LocationCall s r by simp
    have t: "time (addStop E args) = args_time args"
      by (simp add: addStop_def)
    show ?thesis
      using Cons.IH [OF rest] setPin_None [OF s [unfolded r]] LocationCall t
      by (auto simp: timed_def)
  next
    case (LineCall args)
    obtain r st1 where s: "setLeg E args st = (r, st1)"
      by (cases "setLeg E args st")
    have r: "r = None"
      using Cons.prems LineCall s by (cases r) simp_all
    have rest: "processCalls E rest st1 = (None, st')"
      using Cons.prems LineCall s r by simp
    show ?thesis
      using Cons.IH [OF rest] setLeg_fields [OF s] LineCall
      by auto
  next
    case (OtherCall n)
    then show ?thesis
      using Cons.IH [of st] Cons.prems by simp
  qed
qed

lemma processCalls_timed:
  assumes "processCalls E calls st = (r, st')" and "\<forall>s \<in> set (dayPlanItinerary st). timed s"
  shows "\<forall>s \<in> set (dayPlanItinerary st'). timed s"
  using assms
proof (induction calls arbitrary: st)
  case Nil
  then show ?case by simp
next
  case (Cons fn rest)
  show ?case
  proof (cases fn)
    case (LocationCall args)
    obtain r1 st1 where s: "setPin E args st = (r1, st1)"
      by (cases "setPin E args st")
    have t: "time (addStop E args) = args_time args"
      by (simp add: addStop_def)
    have inv: "\<forall>s \<in> set (dayPlanItinerary st1). timed s"
    proof (cases r1)
      case None
      then show ?thesis
        using setPin_None(2) [OF s [unfolded None]] Cons.prems(2) t by (auto simp: timed_def)
    next
      case (Some e)
      then show ?thesis
        using setPin_Some(2) [OF s [unfolded Some]] Cons.prems(2) by simp
    qed
    show ?thesis
    proof (cases r1)
      case None
      then show ?thesis
        using Cons.IH [of st1] Cons.prems(1) LocationCall s inv by simp
    next
      case (Some e)
      then show ?thesis
        using Cons.prems(1) LocationCall s inv by auto
    qed
  next
    case (LineCall args)
    obtain r1 st1 where s: "setLeg E args st = (r1, st1)"
      by (cases "setLeg E args st")
    have inv: "\<forall>s \<in> set (dayPlanItinerary st1). timed s"
      using setLeg_fields(2) [OF s] Cons.prems(2) by simp
    show ?thesis
    proof (cases r1)
      case None
      then show ?thesis
        using Cons.IH [of st1] Cons.prems(1) LineCall s inv by simp
    next
      case (Some e)
      then show ?thesis
        using Cons.prems(1) LineCall s inv by auto
    qed
  next
    case (OtherCall n)
    then show ?thesis
      using Cons.IH [of st] Cons.prems by simp
  qed
qed

lemma processCalls_returns:
  assumes "\<not> isMapInitialized st \<or> (\<forall>p. latLng_error E p = None)"
  shows "fst (processCalls E calls st) = None"
  using assms
proof (induction calls arbitrary: st)
  case Nil
  then show ?case by simp
next
  case (Cons fn rest)
  show ?case
  proof (cases fn)
    case (LocationCall args)
    obtain r st1 where s: "setPin E args st = (r, st1)"
      by (cases "setPin E args st")
    have r: "r = None"
      using setPin_returns [of E args st] s Cons.prems by auto
    have "isMapInitialized st1 = isMapInitialized st"
      using setPin_None(8) [OF s [unfolded r]] .
    then show ?thesis
      using Cons.IH [of st1] Cons.prems LocationCall s r by simp
  next
    case (LineCall args)
    obtain r st1 where s: "setLeg E args st = (r, st1)"
      by (cases "setLeg E args st")
    have r: "r = None"
      using setLeg_returns [of E args st] s Cons.prems by auto
    have "isMapInitialized st1 = isMapInitialized st"
      using setLeg_fields(4) [OF s] .
    then show ?thesis
      using Cons.IH [of st1] Cons.prems LineCall s r by simp
  next
    case (OtherCall n)
    then show ?thesis
      using Cons.IH [of st] Cons.prems by simp
  qed
qed

lemma transportLoop_result: "\<exists>thrown nodes'. transportLoop E ls plan is nodes = (thrown, nodes')"
  by (cases "transportLoop E ls plan is nodes") simp

lemma createTimeline_only_timeline:
  "\<exists>thrown t. createTimeline E st = (thrown, st\<lparr>timeline := t\<rparr>)"
proof (cases "timeline st")
  case None
  then have "createTimeline E st = (None, st\<lparr>timeline := timeline st\<rparr>)"
    by (simp add: createTimeline_def)
  then show ?thesis by blast
next
  case (Some old)
  show ?thesis
  proof (cases "dayPlanItinerary st = []")
    case True
    then have "createTimeline E st = (None, st\<lparr>timeline := timeline st\<rparr>)"
      using Some by (simp add: createTimeline_def)
    then show ?thesis by blast
  next
    case False
    show ?thesis
    proof (cases "lines st = []")
      case True
      then have "createTimeline E st =
          (None, st\<lparr>timeline := Some (map (\<lambda>index. LocationItem index (dayPlanItinerary st ! index)
                              (map node_of (item_markup E index (dayPlanItinerary st ! index))))
                         [0..<length (dayPlanItinerary st)])\<rparr>)"
        using Some False by (simp add: createTimeline_def Let_def)
      then show ?thesis by blast
    next
      case lines: False
      let ?plan = "dayPlanItinerary st"
      let ?children = "map (\<lambda>index. LocationItem index (?plan ! index)
                              (map node_of (item_markup E index (?plan ! index))))
                         [0..<length ?plan]"
      obtain thrown nodes where
        "transportLoop E (lines st) ?plan [0..<count_items ?children - 1] ?children =
         (thrown, nodes)"
        using transportLoop_result by blast
      then have "createTimeline E st = (thrown, st\<lparr>timeline := Some nodes\<rparr>)"
        using Some False lines by (simp add: createTimeline_def Let_def)
      then show ?thesis by blast
    qed
  qed
qed

lemma createTimeline_fields:
  "popUps (snd (createTimeline E st)) = popUps st"
  "dayPlanItinerary (snd (createTimeline E st)) = dayPlanItinerary st"
  "errorMessage (snd (createTimeline E st)) = errorMessage st"
  "points (snd (createTimeline E st)) = points st"
  "bounds (snd (createTimeline E st)) = bounds st"
  "lines (snd (createTimeline E st)) = lines st"
  "isMapInitialized (snd (createTimeline E st)) = isMapInitialized st"
proof -
  obtain thrown t where "createTimeline E st = (thrown, st\<lparr>timeline := t\<rparr>)"
    using createTimeline_only_timeline by blast
  then show "popUps (snd (createTimeline E st)) = popUps st"
    "dayPlanItinerary (snd (createTimeline E st)) = dayPlanItinerary st"
    "errorMessage (snd (createTimeline E st)) = errorMessage st"
    "points (snd (createTimeline E st)) = points st"
    "bounds (snd (createTimeline E st)) = bounds st"
    "lines (snd (createTimeline E st)) = lines st"
    "isMapInitialized (snd (createTimeline E st)) = isMapInitialized st"
    by simp_all
qed

lemma createTimeline_plain:
  assumes "plain E (dayPlanItinerary st)"
  shows "fst (createTimeline E st) = None"
proof (cases "timeline st")
  case None
  then show ?thesis by (simp add: createTimeline_def)
next
  case (Some old)
  then show ?thesis
    using createTimeline_closed [OF Some assms] by simp
qed

lemma buildDayPlan_Nil: "buildDayPlan E [] = []"
  by (simp add: buildDayPlan_def array_sort_def)

lemma set_buildDayPlan: "set (buildDayPlan E stops) = set stops"
  using mset_array_sort [of "compareFn E" stops] unfolding buildDayPlan_def
  by (metis set_mset_mset)

lemma failure_text_nonempty: "failure_text msg \<noteq> []"
  by (simp add: failure_text_def)

lemma restart_fields:
  "popUps (restart st) = []" "dayPlanItinerary (restart st) = []"
  "errorMessage (restart st) = errorMessage st"
  "isMapInitialized (restart st) = isMapInitialized st"
  "points (restart st) = []"
  "isMapInitialized st \<Longrightarrow> bounds (restart st) = []"
  by (simp_all add: restart_def)

text \<open>
  The last step of \<open>sendText\<close> after a batch that was processed without an exception:
  the sort, \<open>createTimeline\<close>, and the message of an exception of \<open>createTimeline\<close>.
\<close>

lemma sendText_processed:
  assumes "calls \<noteq> []"
    and "processCalls E calls (restart (st0\<lparr>errorMessage := []\<rparr>)) = (None, st')"
  shows "\<exists>thrown st2.
           createTimeline E (st'\<lparr>dayPlanItinerary := buildDayPlan E (dayPlanItinerary st')\<rparr>) =
             (thrown, st2) \<and>
           sendText E (Ok calls) st0 =
             (if dayPlanItinerary st' = [] then st'
              else case thrown of
                     None \<Rightarrow> st2
                   | Some (Error msg) \<Rightarrow> st2\<lparr>errorMessage := failure_text msg\<rparr>)"
proof -
  obtain thrown st2 where
    ct: "createTimeline E (st'\<lparr>dayPlanItinerary := buildDayPlan E (dayPlanItinerary st')\<rparr>) =
         (thrown, st2)"
    by (cases "createTimeline E
                 (st'\<lparr>dayPlanItinerary := buildDayPlan E (dayPlanItinerary st')\<rparr>)")
  have "sendText E (Ok calls) st0 =
             (if dayPlanItinerary st' = [] then st'
              else case thrown of
                     None \<Rightarrow> st2
                   | Some (Error msg) \<Rightarrow> st2\<lparr>errorMessage := failure_text msg\<rparr>)"
    using assms ct by (simp add: sendText_def Let_def split: option.splits exn.splits)
  then show ?thesis
    using ct by blast
qed

lemma sendText_success:
  assumes "calls \<noteq> []"
    and "processCalls E calls (restart (st0\<lparr>errorMessage := []\<rparr>)) = (None, st')"
  shows "popUps (sendText E (Ok calls) st0) = map (addStop E) (location_records calls)"
    and "dayPlanItinerary (sendText E (Ok calls) st0) =
           buildDayPlan E (filter timed (map (addStop E) (location_records calls)))"
    and "points (sendText E (Ok calls) st0) = points st'"
    and "bounds (sendText E (Ok calls) st0) = bounds st'"
    and "lines (sendText E (Ok calls) st0) = lines st'"
    and "plain E (dayPlanItinerary (sendText E (Ok calls) st0)) \<Longrightarrow>
         errorMessage (sendText E (Ok calls) st0) = []"
proof -
  let ?st = "restart (st0\<lparr>errorMessage := []\<rparr>)"
  let ?st1 = "st'\<lparr>dayPlanItinerary := buildDayPlan E (dayPlanItinerary st')\<rparr>"
  have p: "popUps st' = map (addStop E) (location_records calls)"
    "dayPlanItinerary st' = filter timed (map (addStop E) (location_records calls))"
    "errorMessage st' = []"
    using processCalls_None [OF assms(2)] by (simp_all add: restart_fields)
  obtain thrown st2 where ct: "createTimeline E ?st1 = (thrown, st2)"
    and final: "sendText E (Ok calls) st0 =
             (if dayPlanItinerary st' = [] then st'
              else case thrown of
                     None \<Rightarrow> st2
                   | Some (Error msg) \<Rightarrow> st2\<lparr>errorMessage := failure_text msg\<rparr>)"
    using sendText_processed [OF assms] by blast
  have st2: "st2 = snd (createTimeline E ?st1)" "thrown = fst (createTimeline E ?st1)"
    using ct by simp_all
  note f = createTimeline_fields [of E ?st1, folded st2(1)]
  show "popUps (sendText E (Ok calls) st0) = map (addStop E) (location_records calls)"
    using final p f by (simp split: option.splits exn.splits)
  show plan: "dayPlanItinerary (sendText E (Ok calls) st0) =
           buildDayPlan E (filter timed (map (addStop E) (location_records calls)))"
    using final p f by (auto simp: buildDayPlan_Nil split: option.splits exn.splits)
  show "points (sendText E (Ok calls) st0) = points st'"
    using final f by (simp split: option.splits exn.splits)
  show "bounds (sendText E (Ok calls) st0) = bounds st'"
    using final f by (simp split: option.splits exn.splits)
  show "lines (sendText E (Ok calls) st0) = lines st'"
    using final f by (simp split: option.splits exn.splits)
  show "errorMessage (sendText E (Ok calls) st0) = []"
    if "plain E (dayPlanItinerary (sendText E (Ok calls) st0))"
  proof -
    have "plain E (dayPlanItinerary ?st1)"
      using that plan p(2) by simp
    then have "thrown = None"
      using createTimeline_plain [of E ?st1] st2(2) by simp
    then show ?thesis
      using final p f by simp
  qed
qed

lemma sendText_no_message:
  assumes "errorMessage (sendText E resp st0) = []"
  shows "\<exists>calls st'. resp = Ok calls \<and> calls \<noteq> [] \<and>
           processCalls E calls (restart (st0\<lparr>errorMessage := []\<rparr>)) = (None, st')"
proof (cases resp)
  case (Failed msg)
  then show ?thesis
    using assms failure_text_nonempty by (simp add: sendText_def Let_def)
next
  case (Ok calls)
  obtain r st' where pc: "processCalls E calls (restart (st0\<lparr>errorMessage := []\<rparr>)) = (r, st')"
    by (cases "processCalls E calls (restart (st0\<lparr>errorMessage := []\<rparr>))")
  have ne: "calls \<noteq> []"
    using assms Ok failure_text_nonempty by (auto simp: sendText_def Let_def)
  have "r = None"
  proof (cases r)
    case None
    then show ?thesis .
  next
    case (Some e)
    then show ?thesis
      using assms Ok ne pc failure_text_nonempty
      by (cases e) (simp add: sendText_def Let_def)
  qed
  then show ?thesis
    using Ok ne pc by blast
qed

lemma sendText_timed: "\<forall>s \<in> set (dayPlanItinerary (sendText E resp st0)). timed s"
proof (cases resp)
  case (Failed msg)
  then show ?thesis
    by (simp add: sendText_def Let_def restart_fields)
next
  case (Ok calls)
  let ?st = "restart (st0\<lparr>errorMessage := []\<rparr>)"
  obtain r st' where pc: "processCalls E calls ?st = (r, st')"
    by (cases "processCalls E calls ?st")
  have inv: "\<forall>s \<in> set (dayPlanItinerary st'). timed s"
    using processCalls_timed [OF pc] by (simp add: restart_fields)
  show ?thesis
  proof (cases "calls = []")
    case True
    then show ?thesis
      using Ok by (simp add: sendText_def Let_def restart_fields)
  next
    case False
    show ?thesis
    proof (cases r)
      case None
      have "dayPlanItinerary (sendText E (Ok calls) st0) =
              buildDayPlan E (filter timed (map (addStop E) (location_records calls)))"
        using sendText_success(2) [OF False pc [unfolded None]] .
      then show ?thesis
        using Ok by (simp add: set_buildDayPlan)
    next
      case (Some e)
      then show ?thesis
        using Ok False pc inv by (cases e) (simp add: sendText_def Let_def)
    qed
  qed
qed

text \<open>A batch stops at the first record whose call throws.\<close>

lemma processCalls_append:
  assumes "processCalls E pre st = (None, st1)"
  shows "processCalls E (pre @ rest) st = processCalls E rest st1"
  using assms
proof (induction pre arbitrary: st)
  case Nil
  then show ?case by simp
next
  case (Cons fn pre)
  obtain r st2 where s: "(case fn of LocationCall args \<Rightarrow> setPin E args st
            | LineCall args \<Rightarrow> setLeg E args st
            | OtherCall _ \<Rightarrow> (None, st)) = (r, st2)"
    by (cases "case fn of LocationCall args \<Rightarrow> setPin E args st
            | LineCall args \<Rightarrow> setLeg E args st
            | OtherCall _ \<Rightarrow> (None, st)")
  have r: "r = None"
    using Cons.prems s by (cases r) simp_all
  have "processCalls E pre st2 = (None, st1)"
    using Cons.prems s r by simp
  then have "processCalls E (pre @ rest) st2 = processCalls E rest st1"
    by (rule Cons.IH)
  then show ?case
    using s r by simp
qed

lemma setPin_rejected:
  "isMapInitialized st \<Longrightarrow> latLng_error E (position (addStop E args)) = Some msg \<Longrightarrow>
   setPin E args st = (Some (Error msg), st\<lparr>points := points st @ [position (addStop E args)]\<rparr>)"
  by (simp add: setPin_def addStop_def Let_def)

lemma sendText_rejected:
  assumes "isMapInitialized st0"
    and "processCalls E pre (restart (st0\<lparr>errorMessage := []\<rparr>)) = (None, st1)"
    and "latLng_error E (position (addStop E args)) = Some msg"
  shows "sendText E (Ok (pre @ LocationCall args # post)) st0 =
         st1\<lparr>points := points st1 @ [position (addStop E args)],
             errorMessage := failure_text msg\<rparr>"
proof -
  have m: "isMapInitialized st1"
    using processCalls_None [OF assms(2)] assms(1) by (simp add: restart_fields)
  have "processCalls E (pre @ LocationCall args # post) (restart (st0\<lparr>errorMessage := []\<rparr>)) =
        processCalls E (LocationCall args # post) st1"
    using assms(2) by (rule processCalls_append)
  also have "\<dots> = (Some (Error msg), st1\<lparr>points := points st1 @ [position (addStop E args)]\<rparr>)"
    using setPin_rejected [OF m assms(3)] by simp
  finally show ?thesis
    by (simp add: sendText_def Let_def del: processCalls.simps)
qed

lemma fullItinerary_stops:
  "Location s \<in> set (fullItinerary st) \<Longrightarrow> s \<in> set (dayPlanItinerary st)"
proof -
  assume "Location s \<in> set (fullItinerary st)"
  then have "Location s \<in> set (filter is_Location (fullItinerary st))"
    by simp
  then have "Location s \<in> set (map Location (dayPlanItinerary st))"
    by (simp only: fullItinerary_assemble assemble_stops)
  then show ?thesis by auto
qed

section \<open>The sample session, step by step\<close>

lemma setPin_mapless:
  "\<not> isMapInitialized st \<Longrightarrow>
   setPin E args st =
     (None, st\<lparr>points := points st @ [position (addStop E args)],
               popUps := popUps st @ [addStop E args],
               dayPlanItinerary :=
                 (if truthy (args_time args) then dayPlanItinerary st @ [addStop E args]
                  else dayPlanItinerary st)\<rparr>)"
  by (simp add: setPin_def addStop_def Let_def)

lemma setLeg_mapless:
  "\<not> isMapInitialized st \<Longrightarrow>
   setLeg E args st =
     (None, st\<lparr>points := points st @ [the (startPoint (legOf E args)), the (endPoint (legOf E args))],
               lines := lines st @ [legOf E args]\<rparr>)"
  by (simp add: setLeg_def legOf_def Let_def)

lemma eval_restart: "restart (empty_state\<lparr>errorMessage := []\<rparr>) = empty_state"
  by (simp add: restart_def empty_state_def)

lemmas sample_defs =
  empty_state_def sample_env_def sample_Number_def park_args_def cafe_args_def
  timeless_args_def bad_args_def walk_args_def park_def cafe_def walk_def addStop_def legOf_def
  truthy_def

lemma plain_sample:
  "\<forall>s \<in> set plan. description s \<noteq> ''<div class=timeline-item></div>'' \<Longrightarrow>
   plain sample_env plan"
  by (simp add: plain_def sample_env_def)

lemma eval_process:
  "processCalls sample_env
     [LocationCall cafe_args, LocationCall timeless_args, LineCall walk_args, LocationCall park_args]
     empty_state =
   (None, empty_state\<lparr>points := [position cafe, position cafe, position park, position cafe, position park],
        lines := [walk], popUps := [cafe, addStop sample_env timeless_args, park],
        dayPlanItinerary := [cafe, park]\<rparr>)"
  by (simp add: setPin_mapless setLeg_mapless sample_defs)

lemma eval_sort: "buildDayPlan sample_env [cafe, park] = [park, cafe]"
  by (simp add: buildDayPlan_def array_sort_def compareFn_def seq_or_Infinity_def truthy_num_def
      comes_after_def str_or_def lexCompare_def sample_env_def park_def cafe_def)

lemma eval_sendText:
  "sendText sample_env
     (Ok [LocationCall cafe_args, LocationCall timeless_args, LineCall walk_args,
          LocationCall park_args]) empty_state =
   snd (createTimeline sample_env
     (empty_state\<lparr>points := [position cafe, position cafe, position park, position cafe, position park],
        lines := [walk], popUps := [cafe, addStop sample_env timeless_args, park],
        dayPlanItinerary := [park, cafe]\<rparr>))"
proof -
  let ?st = "empty_state\<lparr>points := [position cafe, position cafe, position park, position cafe, position park],
        lines := [walk], popUps := [cafe, addStop sample_env timeless_args, park],
        dayPlanItinerary := [park, cafe]\<rparr>"
  have "plain sample_env (dayPlanItinerary ?st)"
    by (simp add: plain_sample park_def cafe_def)
  then have "fst (createTimeline sample_env ?st) = None"
    by (rule createTimeline_plain)
  then show ?thesis
    by (cases "createTimeline sample_env ?st")
       (simp add: sendText_def eval_restart eval_process eval_sort del: processCalls.simps)
qed

lemma fullItinerary_createTimeline:
  "fullItinerary (snd (createTimeline E st)) = fullItinerary st"
  by (simp add: fullItinerary_def createTimeline_fields)

lemma eval_merge:
  "fullItinerary (empty_state\<lparr>points := ps, lines := [walk], popUps := pu, dayPlanItinerary := [park, cafe]\<rparr>)
     = [Location park, Transport walk, Location cafe]"
  by (simp add: fullItinerary_def connectingLine_def connects_def strict_eq_def
      park_def cafe_def walk_def)

lemma setPin_accepted:
  "isMapInitialized st \<Longrightarrow> latLng_error E (position (addStop E args)) = None \<Longrightarrow>
   setPin E args st =
     (None, st\<lparr>points := points st @ [position (addStop E args)],
               bounds := bounds st @ [position (addStop E args)],
               markers := markers st @ [position (addStop E args)],
               popUps := popUps st @ [addStop E args],
               dayPlanItinerary :=
                 (if truthy (args_time args) then dayPlanItinerary st @ [addStop E args]
                  else dayPlanItinerary st)\<rparr>)"
  by (simp add: setPin_def addStop_def Let_def)

lemma eval_restart_map: "restart (map_state\<lparr>errorMessage := []\<rparr>) = map_state"
  by (simp add: restart_def map_state_def empty_state_def)

lemma eval_lost_stop:
  "lost_stop = \<lparr>name = ''Lost'', description = ''Off-leash area'',
     position = \<lparr>lat = NaN, lng = Fin (- 97.1)\<rparr>, time = Some ''10:00'', duration = None,
     sequence = None\<rparr>"
  by (simp add: lost_stop_def sample_defs)

lemma eval_process_bad:
  "processCalls sample_env
     [LocationCall park_args, LocationCall bad_args, LocationCall cafe_args] empty_state =
   (None, empty_state\<lparr>points := [position park, position lost_stop, position cafe],
        popUps := [park, lost_stop, cafe], dayPlanItinerary := [park, lost_stop, cafe]\<rparr>)"
  by (simp add: setPin_mapless sample_defs lost_stop_def)

lemma eval_process_bad_map:
  "processCalls sample_env
     [LocationCall park_args, LocationCall bad_args, LocationCall cafe_args] map_state =
   (Some (Error ''Invalid LatLng object''),
    map_state\<lparr>points := [position park, position lost_stop],
        bounds := [position park], markers := [position park],
        popUps := [park], dayPlanItinerary := [park]\<rparr>)"
  by (simp add: setPin_accepted setPin_rejected sample_defs lost_stop_def map_state_def)

lemma eval_sort_bad: "buildDayPlan sample_env [park, lost_stop, cafe] = [park, lost_stop, cafe]"
  by (simp add: buildDayPlan_def array_sort_def compareFn_def seq_or_Infinity_def truthy_num_def
      comes_after_def str_or_def lexCompare_def sample_env_def park_def cafe_def eval_lost_stop)

lemma eval_sendText_bad:
  "sendText sample_env
     (Ok [LocationCall park_args, LocationCall bad_args, LocationCall cafe_args]) empty_state =
   snd (createTimeline sample_env
     (empty_state\<lparr>points := [position park, position lost_stop, position cafe],
        popUps := [park, lost_stop, cafe], dayPlanItinerary := [park, lost_stop, cafe]\<rparr>))"
proof -
  let ?st = "empty_state\<lparr>points := [position park, position lost_stop, position cafe],
        popUps := [park, lost_stop, cafe], dayPlanItinerary := [park, lost_stop, cafe]\<rparr>"
  have "plain sample_env (dayPlanItinerary ?st)"
    by (simp add: plain_sample park_def cafe_def eval_lost_stop)
  then have "fst (createTimeline sample_env ?st) = None"
    by (rule createTimeline_plain)
  then show ?thesis
    by (cases "createTimeline sample_env ?st")
       (simp add: sendText_def eval_restart eval_process_bad eval_sort_bad
          del: processCalls.simps)
qed

lemma eval_sendText_bad_map:
  "sendText sample_env
     (Ok [LocationCall park_args, LocationCall bad_args, LocationCall cafe_args]) map_state =
   map_state\<lparr>points := [position park, position lost_stop],
        bounds := [position park], markers := [position park],
        popUps := [park], dayPlanItinerary := [park],
        errorMessage := failure_text ''Invalid LatLng object''\<rparr>"
  by (simp add: sendText_def eval_restart_map eval_process_bad_map del: processCalls.simps)

section \<open>Properties of the layout walk\<close>

lemma bottom_margin:
  assumes "\<forall>size ls. 0 \<le> textHeight doc size ls"
  shows "margin \<le> bottom doc item"
proof (cases item)
  case (Location data)
  have "0 \<le> textHeight doc 10 (splitTextToSize doc 10 (description data) (contentWidth doc))"
    using assms by blast
  then show ?thesis
    using Location by (simp add: bottom_def)
next
  case (Transport data)
  then show ?thesis by (simp add: bottom_def)
qed

text \<open>
  On a page lower than two margins every entry starts a new page; it is drawn at the top
  of that page.
\<close>

lemma drawItem_degenerate:
  assumes deg: "pageHeight doc - 2 * margin \<le> 0"
    and nonneg: "\<forall>size ls. 0 \<le> textHeight doc size ls"
    and y: "margin \<le> y s"
  shows "drawn (drawItem E doc len index item s) =
           drawn s @ AddPage # placed E doc item @
           (if index < len - 1
            then [Line connectorX (margin + 4) connectorX (bottom doc item - 12)]
            else [])"
    and "y (drawItem E doc len index item s) = bottom doc item"
proof -
  let ?text = "case item of Location data \<Rightarrow> description data
               | Transport data \<Rightarrow> str_or (leg_name data) []"
  let ?h = "textHeight doc (fontSize s) (splitTextToSize doc (fontSize s) ?text (contentWidth doc))"
  have h: "0 \<le> ?h"
    using nonneg by blast
  have break: "checkPageBreak doc (40 + ?h) s = s\<lparr>drawn := drawn s @ [AddPage], y := margin\<rparr>"
    using deg y h by (simp add: checkPageBreak_def emit_def)
  show "drawn (drawItem E doc len index item s) =
           drawn s @ AddPage # placed E doc item @
           (if index < len - 1
            then [Line connectorX (margin + 4) connectorX (bottom doc item - 12)]
            else [])"
  proof (cases item)
    case (Location data)
    then show ?thesis
      using break
      by (simp add: drawItem_def drawLocation_def emit_def placed_def bottom_def Let_def)
  next
    case (Transport data)
    then show ?thesis
      using break
      by (simp add: drawItem_def drawTransport_def emit_def placed_def bottom_def Let_def)
  qed
  show "y (drawItem E doc len index item s) = bottom doc item"
  proof (cases item)
    case (Location data)
    then show ?thesis
      using break
      by (simp add: drawItem_def drawLocation_def emit_def bottom_def Let_def)
  next
    case (Transport data)
    then show ?thesis
      using break
      by (simp add: drawItem_def drawTransport_def emit_def bottom_def Let_def)
  qed
qed

lemma drawItems_degenerate:
  assumes deg: "pageHeight doc - 2 * margin \<le> 0"
    and nonneg: "\<forall>size ls. 0 \<le> textHeight doc size ls"
    and y: "margin \<le> y s"
  shows "drawn (drawItems E doc len index items s) = drawn s @ pages E doc len index items"
  using y
proof (induction items arbitrary: s index)
  case Nil
  then show ?case by simp
next
  case (Cons item items)
  let ?s1 = "drawItem E doc len index item s"
  have "margin \<le> y ?s1"
    using drawItem_degenerate(2) [OF deg nonneg Cons.prems] bottom_margin [OF nonneg] by simp
  then have "drawn (drawItems E doc len (index + 1) items ?s1) =
             drawn ?s1 @ pages E doc len (index + 1) items"
    by (rule Cons.IH)
  then show ?case
    using drawItem_degenerate(1) [OF deg nonneg Cons.prems, of E len index item] by simp
qed

lemma count_pages:
  "length (filter (\<lambda>i. i = AddPage) (pages E doc len index items)) = length items"
proof (induction items arbitrary: index)
  case Nil
  then show ?case by simp
next
  case (Cons item items)
  have "filter (\<lambda>i. i = AddPage) (placed E doc item) = []"
    by (cases item) (simp_all add: placed_def)
  then show ?case
    using Cons.IH [of "index + 1"] by simp
qed

lemma eval_upperFirst: "sample_upperFirst ''walking'' = ''Walking''"
  by code_simp

section \<open>Properties of the lookup\<close>

text \<open>
  The lookup returns the first leg, in arrival order, whose unordered endpoint pair equals
  the pair of stop positions under exact point equality, and nothing exactly when no leg
  matches; neither case has a failing branch.
\<close>

lemma connectingLine_first:
  "connectingLine ls a b = Some l \<longleftrightarrow>
     (\<exists>i<length ls. ls ! i = l \<and> endpoints_equal l (position a) (position b) \<and>
        (\<forall>j<i. \<not> endpoints_equal (ls ! j) (position a) (position b)))"
  by (simp add: connectingLine_Some_iff connects_endpoints_equal)

lemma connectingLine_no_match:
  "connectingLine ls a b = None \<longleftrightarrow>
     (\<forall>l \<in> set ls. \<not> endpoints_equal l (position a) (position b))"
  by (simp add: connectingLine_None_iff connects_endpoints_equal)

text \<open>A stop with a NaN coordinate is connected to no stop, whatever the legs are.\<close>

lemma connectingLine_NaN:
  assumes "lat (position a) = NaN \<or> lng (position a) = NaN \<or>
           lat (position b) = NaN \<or> lng (position b) = NaN"
  shows "connectingLine ls a b = None"
  using assms connects_NaN [of "position a" "position b"]
  by (simp add: connectingLine_None_iff)

section \<open>Properties of a rejected record\<close>

text \<open>With the map initialised, every point of the bounds was accepted by Leaflet.\<close>

lemma processCalls_bounds:
  assumes "processCalls E calls st = (None, st')" and "isMapInitialized st"
    and "\<forall>p \<in> set (bounds st). latLng_error E p = None"
  shows "\<forall>p \<in> set (bounds st'). latLng_error E p = None"
  using assms
proof (induction calls arbitrary: st)
  case Nil
  then show ?case by simp
next
  case (Cons fn rest)
  show ?case
  proof (cases fn)
    case (LocationCall args)
    obtain r st1 where s: "setPin E args st = (r, st1)"
      by (cases "setPin E args st")
    have r: "r = None"
      using Cons.prems(1) LocationCall s by (cases r) simp_all
    have rest: "processCalls E rest st1 = (None, st')"
      using Cons.prems(1) LocationCall s r by simp
    have ok: "latLng_error E (position (addStop E args)) = None"
      using setPin_returns [of E args st] s r Cons.prems(2) by (simp add: addStop_def)
    have "isMapInitialized st1" "\<forall>p \<in> set (bounds st1). latLng_error E p = None"
      using setPin_None(4,8) [OF s [unfolded r]] Cons.prems(2,3) ok by simp_all
    then show ?thesis
      using Cons.IH [OF rest] by simp
  next
    case (LineCall args)
    obtain r st1 where s: "setLeg E args st = (r, st1)"
      by (cases "setLeg E args st")
    have r: "r = None"
      using Cons.prems(1) LineCall s by (cases r) simp_all
    have rest: "processCalls E rest st1 = (None, st')"
      using Cons.prems(1) LineCall s r by simp
    have "isMapInitialized st1"
      using setLeg_fields(4) [OF s] Cons.prems(2) by simp
    moreover have "\<forall>p \<in> set (bounds st1). latLng_error E p = None"
      using s r Cons.prems(2,3)
      by (auto simp: setLeg_def Let_def split: option.splits if_splits)
    ultimately show ?thesis
      using Cons.IH [OF rest] by simp
  next
    case (OtherCall n)
    then show ?thesis
      using Cons.IH [of st] Cons.prems by simp
  qed
qed

lemma location_records_append:
  "location_records (xs @ ys) = location_records xs @ location_records ys"
  by (induction xs rule: location_records.induct) simp_all

section \<open>The properties of the specification\<close>

subsection \<open>C1: the day plan is a stable sort\<close>

text \<open>
  C1. For every list of stops, and every consistent \<open>localeCompare\<close>,
  \<open>buildDayPlan\<close> returns the same stops in ascending order of the composite key (the
  sequence if it is present and not 0, else +infinity; then the time if it is non-empty,
  else the empty string, compared by \<open>localeCompare\<close>), stops with equal keys in
  their arrival order. When no stop has sequence 0 this is the order of the key
  (sequence if present, else +infinity; time if present, else the empty string). The
  stops with sequences 3, 1 and none and times 10:00, 09:00 and 08:00 come out as 1, 3,
  none.
\<close>

theorem buildDayPlan_stable_sort:
  assumes "consistent (localeCompare E)"
  shows "sorted_wrt (key_le (localeCompare E)) (buildDayPlan E stops) \<and>
         mset (buildDayPlan E stops) = mset stops \<and>
         (\<forall>z. filter (key_equiv (localeCompare E) z) (buildDayPlan E stops) =
              filter (key_equiv (localeCompare E) z) stops) \<and>
         ((\<forall>s \<in> set stops. sequence s \<noteq> Some 0) \<longrightarrow>
            sorted_wrt (spec_key_le (localeCompare E)) (buildDayPlan E stops)) \<and>
         buildDayPlan E [third, first, unnumbered] = [first, third, unnumbered]"
proof (intro conjI allI impI)
  show "sorted_wrt (key_le (localeCompare E)) (buildDayPlan E stops)"
    using assms by (rule buildDayPlan_sorted)
  show "mset (buildDayPlan E stops) = mset stops"
    by (simp add: buildDayPlan_def mset_array_sort)
  show "filter (key_equiv (localeCompare E) z) (buildDayPlan E stops) =
        filter (key_equiv (localeCompare E) z) stops" for z
    using assms by (rule buildDayPlan_stable)
  show "buildDayPlan E [third, first, unnumbered] = [first, third, unnumbered]"
    by (simp add: buildDayPlan_def array_sort_def compareFn_def seq_or_Infinity_def
        truthy_num_def comes_after_def third_def first_def unnumbered_def park_def)
next
  assume nz: "\<forall>s \<in> set stops. sequence s \<noteq> Some 0"
  have "set (buildDayPlan E stops) = set stops"
    using mset_array_sort [of "compareFn E" stops] unfolding buildDayPlan_def
    by (metis set_mset_mset)
  then have nz': "\<forall>s \<in> set (buildDayPlan E stops). sequence s \<noteq> Some 0"
    using nz by simp
  have eq: "sequence a \<noteq> Some 0 \<Longrightarrow> sequence b \<noteq> Some 0 \<Longrightarrow>
      key_le lc a b = spec_key_le lc a b" for a b lc
    by (auto simp: key_le_def spec_key_le_def spec_seq_key_def spec_time_key_def
        seq_or_Infinity_def str_or_def split: option.splits)
  have "sorted_wrt (key_le (localeCompare E)) (buildDayPlan E stops)"
    using assms by (rule buildDayPlan_sorted)
  then show "sorted_wrt (spec_key_le (localeCompare E)) (buildDayPlan E stops)"
    using nz' eq by (simp add: sorted_wrt_iff_nth_less)
qed

theorem buildDayPlan_stable_sort_witness:
  "consistent (localeCompare sample_env) \<and>
   buildDayPlan sample_env [zeroth, third, unnumbered, first] = [first, third, zeroth, unnumbered] \<and>
   list_all (\<lambda>s. sequence s \<noteq> Some 0)
     [unnumbered, third, unnumbered\<lparr>name := ''Twin''\<rparr>, first] \<and>
   buildDayPlan sample_env [unnumbered, third, unnumbered\<lparr>name := ''Twin''\<rparr>, first] =
     [first, third, unnumbered, unnumbered\<lparr>name := ''Twin''\<rparr>] \<and>
   sorted_wrt (spec_key_le (localeCompare sample_env))
     [first, third, unnumbered, unnumbered\<lparr>name := ''Twin''\<rparr>]"
  using buildDayPlan_stable_sort [of sample_env "[zeroth, third, unnumbered, first]"]
    buildDayPlan_stable_sort
      [of sample_env "[unnumbered, third, unnumbered\<lparr>name := ''Twin''\<rparr>, first]"]
    consistent_lexCompare
  by (simp add: sample_env_def buildDayPlan_def array_sort_def compareFn_def seq_or_Infinity_def
      truthy_num_def comes_after_def third_def first_def unnumbered_def zeroth_def park_def
      str_or_def lexCompare_def spec_key_le_def spec_seq_key_def spec_time_key_def num_less_def)

theorem buildDayPlan_zero_sequence_counterexample:
  "spec_key_le (localeCompare sample_env) zeroth first \<and>
   \<not> spec_key_le (localeCompare sample_env) first zeroth \<and>
   buildDayPlan sample_env [zeroth, first] = [first, zeroth] \<and>
   \<not> sorted_wrt (spec_key_le (localeCompare sample_env)) (buildDayPlan sample_env [zeroth, first])"
  by (simp add: sample_env_def buildDayPlan_def array_sort_def compareFn_def seq_or_Infinity_def
      truthy_num_def comes_after_def first_def zeroth_def park_def
      spec_key_le_def spec_seq_key_def num_less_def)

subsection \<open>C2: a leg without transport and travel time\<close>

text \<open>
  C2. A leg whose \<open>transport\<close> and \<open>travelTime\<close> are both empty and whose endpoints
  are those of the adjacent stops Park and Cafe is matched; the timeline leaves it out, but
  the exported sequence contains it, with the map initialised and without it.
\<close>

theorem export_emits_content_free_leg:
  "transport bare_leg = Some [] \<and> travelTime bare_leg = Some [] \<and>
   connectingLine [bare_leg] park cafe = Some bare_leg \<and>
   fst (createTimeline sample_env
          (empty_state\<lparr>lines := [bare_leg], dayPlanItinerary := [park, cafe]\<rparr>)) = None \<and>
   timeline (snd (createTimeline sample_env
                    (empty_state\<lparr>lines := [bare_leg], dayPlanItinerary := [park, cafe]\<rparr>))) =
     Some [LocationItem 0 park [], LocationItem 1 cafe []] \<and>
   fullItinerary (empty_state\<lparr>lines := [bare_leg], dayPlanItinerary := [park, cafe]\<rparr>) =
     [Location park, Transport bare_leg, Location cafe] \<and>
   fst (createTimeline sample_env
          (map_state\<lparr>lines := [bare_leg], dayPlanItinerary := [park, cafe]\<rparr>)) = None \<and>
   timeline (snd (createTimeline sample_env
                    (map_state\<lparr>lines := [bare_leg], dayPlanItinerary := [park, cafe]\<rparr>))) =
     Some [LocationItem 0 park [], LocationItem 1 cafe []] \<and>
   fullItinerary (map_state\<lparr>lines := [bare_leg], dayPlanItinerary := [park, cafe]\<rparr>) =
     [Location park, Transport bare_leg, Location cafe]"
  by (simp add: connectingLine_def connects_def strict_eq_def truthy_def
      park_def cafe_def bare_leg_def empty_state_def map_state_def createTimeline_def
      sample_env_def count_items_def fullItinerary_def addTransport_def eval_upt)

subsection \<open>C3: a record with a non-numeric latitude\<close>

text \<open>
  C3. A location record with a non-numeric \<open>lat\<close> gives a stop with latitude NaN; there
  is no validation and no warning for it. What becomes of the batch depends on the map.

  When the map is not initialised, no record is rejected: \<open>popUps\<close> holds the stop of
  every location record, the malformed one included (one more than the other location
  records), its point is in \<open>points\<close>, the stop is in the day plan when the record has
  a time, and no message is displayed when the texts of the day plan are plain.

  When the map is initialised and Leaflet rejects the point, as it does for a NaN
  coordinate, the batch ends at the malformed record (the records before it having been
  processed): the failure message with Leaflet's text is displayed, \<open>popUps\<close> and the
  day plan hold the stops of the records before it only, the day plan is not sorted and the
  timeline not built, and the point is in \<open>points\<close> but not in the bounds.

  The examples are a batch of two well-formed records around a malformed one.
\<close>

theorem malformed_record_outcomes:
  assumes "calls = pre @ LocationCall args # post"
    and "Number E (args_lat args) = NaN"
  shows "lat (position (addStop E args)) = NaN \<and>
     (\<not> isMapInitialized st0 \<longrightarrow>
        popUps (sendText E (Ok calls) st0) = map (addStop E) (location_records calls) \<and>
        length (popUps (sendText E (Ok calls) st0)) =
          length (location_records pre) + length (location_records post) + 1 \<and>
        addStop E args \<in> set (popUps (sendText E (Ok calls) st0)) \<and>
        position (addStop E args) \<in> set (points (sendText E (Ok calls) st0)) \<and>
        (truthy (args_time args) \<longrightarrow>
           addStop E args \<in> set (dayPlanItinerary (sendText E (Ok calls) st0))) \<and>
        (plain E (dayPlanItinerary (sendText E (Ok calls) st0)) \<longrightarrow>
           errorMessage (sendText E (Ok calls) st0) = [])) \<and>
     (\<forall>msg. isMapInitialized st0 \<and>
        fst (processCalls E pre (restart (st0\<lparr>errorMessage := []\<rparr>))) = None \<and>
        latLng_error E (position (addStop E args)) = Some msg \<longrightarrow>
        errorMessage (sendText E (Ok calls) st0) = failure_text msg \<and>
        popUps (sendText E (Ok calls) st0) = map (addStop E) (location_records pre) \<and>
        dayPlanItinerary (sendText E (Ok calls) st0) =
          filter timed (map (addStop E) (location_records pre)) \<and>
        timeline (sendText E (Ok calls) st0) = timeline (restart st0) \<and>
        position (addStop E args) \<in> set (points (sendText E (Ok calls) st0)) \<and>
        position (addStop E args) \<notin> set (bounds (sendText E (Ok calls) st0)))"
proof (intro conjI allI impI)
  show "lat (position (addStop E args)) = NaN"
    using assms(2) by (simp add: addStop_def)
next
  let ?st = "restart (st0\<lparr>errorMessage := []\<rparr>)"
  let ?final = "sendText E (Ok calls) st0"
  assume mapless: "\<not> isMapInitialized st0"
  have ne: "calls \<noteq> []"
    using assms(1) by simp
  obtain r st' where pc: "processCalls E calls ?st = (r, st')"
    by (cases "processCalls E calls ?st")
  have "\<not> isMapInitialized ?st \<or> (\<forall>p. latLng_error E p = None)"
    using mapless by (simp add: restart_fields)
  then have "fst (processCalls E calls ?st) = None"
    by (rule processCalls_returns)
  then have ok: "processCalls E calls ?st = (None, st')"
    using pc by simp
  note fin = sendText_success [OF ne ok]
  note pn = processCalls_None [OF ok]
  have recs: "location_records calls = location_records pre @ args # location_records post"
    using assms(1) by (simp add: location_records_append)
  show "popUps ?final = map (addStop E) (location_records calls)" by (rule fin(1))
  show "length (popUps ?final) = length (location_records pre) + length (location_records post) + 1"
    by (simp add: fin(1) recs)
  show "addStop E args \<in> set (popUps ?final)"
    by (simp add: fin(1) recs)
  show "position (addStop E args) \<in> set (points ?final)"
    using pn fin(3) recs by auto
  show "addStop E args \<in> set (dayPlanItinerary ?final)" if "truthy (args_time args)"
    using that by (simp add: fin(2) recs set_buildDayPlan timed_def addStop_def)
  show "errorMessage ?final = []" if "plain E (dayPlanItinerary ?final)"
    using that by (rule fin(6))
next
  fix msg
  let ?st = "restart (st0\<lparr>errorMessage := []\<rparr>)"
  let ?final = "sendText E (Ok calls) st0"
  assume a: "isMapInitialized st0 \<and> fst (processCalls E pre ?st) = None \<and>
        latLng_error E (position (addStop E args)) = Some msg"
  obtain st1 where pc: "processCalls E pre ?st = (None, st1)"
    using a by (cases "processCalls E pre ?st") simp
  have final: "?final = st1\<lparr>points := points st1 @ [position (addStop E args)],
                              errorMessage := failure_text msg\<rparr>"
    unfolding assms(1) using a pc by (simp add: sendText_rejected)
  note pn = processCalls_None [OF pc]
  have "\<forall>p \<in> set (bounds st1). latLng_error E p = None"
    using processCalls_bounds [OF pc] a by (simp add: restart_fields)
  then have nb: "position (addStop E args) \<notin> set (bounds st1)"
    using a by auto
  show "errorMessage ?final = failure_text msg"
    using final by simp
  show "popUps ?final = map (addStop E) (location_records pre)"
    using final pn by (simp add: restart_fields)
  show "dayPlanItinerary ?final = filter timed (map (addStop E) (location_records pre))"
    using final pn by (simp add: restart_fields)
  show "timeline ?final = timeline (restart st0)"
    using final pn by (simp add: restart_def)
  show "position (addStop E args) \<in> set (points ?final)"
    using final by simp
  show "position (addStop E args) \<notin> set (bounds ?final)"
    using final nb by simp
qed

theorem malformed_record_outcomes_witness:
  "Number sample_env (args_lat bad_args) = NaN \<and>
   lat (position lost_stop) = NaN \<and>
   \<not> isMapInitialized empty_state \<and>
   plain sample_env [park, lost_stop, cafe] \<and>
   popUps (sendText sample_env
     (Ok [LocationCall park_args, LocationCall bad_args, LocationCall cafe_args]) empty_state) =
     [park, lost_stop, cafe] \<and>
   dayPlanItinerary (sendText sample_env
     (Ok [LocationCall park_args, LocationCall bad_args, LocationCall cafe_args]) empty_state) =
     [park, lost_stop, cafe] \<and>
   errorMessage (sendText sample_env
     (Ok [LocationCall park_args, LocationCall bad_args, LocationCall cafe_args]) empty_state) = [] \<and>
   isMapInitialized map_state \<and>
   fst (processCalls sample_env [LocationCall park_args]
          (restart (map_state\<lparr>errorMessage := []\<rparr>))) = None \<and>
   latLng_error sample_env (position lost_stop) = Some ''Invalid LatLng object'' \<and>
   errorMessage (sendText sample_env
     (Ok [LocationCall park_args, LocationCall bad_args, LocationCall cafe_args]) map_state) =
     failure_text ''Invalid LatLng object'' \<and>
   popUps (sendText sample_env
     (Ok [LocationCall park_args, LocationCall bad_args, LocationCall cafe_args]) map_state) =
     [park] \<and>
   bounds (sendText sample_env
     (Ok [LocationCall park_args, LocationCall bad_args, LocationCall cafe_args]) map_state) =
     [position park]"
proof -
  have 1: "Number sample_env (args_lat bad_args) = NaN" "lat (position lost_stop) = NaN"
    "\<not> isMapInitialized empty_state" "isMapInitialized map_state"
    "latLng_error sample_env (position lost_stop) = Some ''Invalid LatLng object''"
    by (simp_all add: sample_defs eval_lost_stop map_state_def)
  have 2: "plain sample_env [park, lost_stop, cafe]"
    by (simp add: plain_sample park_def cafe_def eval_lost_stop)
  have 3: "fst (processCalls sample_env [LocationCall park_args]
          (restart (map_state\<lparr>errorMessage := []\<rparr>))) = None"
    by (simp only: eval_restart_map) (simp add: setPin_accepted sample_defs map_state_def)
  have 4: "[LocationCall park_args, LocationCall bad_args, LocationCall cafe_args] =
           [LocationCall park_args] @ LocationCall bad_args # [LocationCall cafe_args]"
    by simp
  note inst = malformed_record_outcomes [OF 4 1(1), of empty_state]
    malformed_record_outcomes [OF 4 1(1), of map_state]
  have 5: "errorMessage (empty_state\<lparr>points := ps, popUps := pu, dayPlanItinerary := dp\<rparr>) = []"
    for ps pu dp
    by (simp add: empty_state_def)
  show ?thesis
    using inst 1 2 3
    by (simp only: eval_sendText_bad eval_sendText_bad_map createTimeline_fields 5) simp
qed

theorem malformed_record_counterexample:
  "Number sample_env (args_lat bad_args) = NaN \<and>
   Number sample_env (args_lat park_args) \<noteq> NaN \<and>
   Number sample_env (args_lat cafe_args) \<noteq> NaN \<and>
   popUps (sendText sample_env
     (Ok [LocationCall park_args, LocationCall bad_args, LocationCall cafe_args]) empty_state) =
     [park, lost_stop, cafe] \<and>
   dayPlanItinerary (sendText sample_env
     (Ok [LocationCall park_args, LocationCall bad_args, LocationCall cafe_args]) empty_state) =
     [park, lost_stop, cafe] \<and>
   errorMessage (sendText sample_env
     (Ok [LocationCall park_args, LocationCall bad_args, LocationCall cafe_args]) empty_state) = [] \<and>
   lat (position lost_stop) = NaN \<and>
   popUps (sendText sample_env
     (Ok [LocationCall park_args, LocationCall bad_args, LocationCall cafe_args]) map_state) =
     [park] \<and>
   errorMessage (sendText sample_env
     (Ok [LocationCall park_args, LocationCall bad_args, LocationCall cafe_args]) map_state) =
     failure_text ''Invalid LatLng object''"
proof -
  have 1: "Number sample_env (args_lat bad_args) = NaN"
    "Number sample_env (args_lat park_args) \<noteq> NaN"
    "Number sample_env (args_lat cafe_args) \<noteq> NaN"
    "lat (position lost_stop) = NaN"
    by (simp_all add: sample_defs eval_lost_stop)
  have 2: "errorMessage (empty_state\<lparr>points := ps, popUps := pu, dayPlanItinerary := dp\<rparr>) = []"
    for ps pu dp
    by (simp add: empty_state_def)
  show ?thesis
    using 1
    by (simp only: eval_sendText_bad eval_sendText_bad_map createTimeline_fields 2) simp
qed

subsection \<open>C4: leg matching is symmetric\<close>

text \<open>
  C4. The lookup for \<open>(a, b)\<close> returns what the lookup for \<open>(b, a)\<close> returns, for
  every list of legs and every two stops. A leg stored from \<open>a\<close>'s position to
  \<open>b\<close>'s, or from \<open>b\<close>'s to \<open>a\<close>'s, matches the query \<open>(a, b)\<close>, and the lookup
  then finds a leg, whenever no coordinate of the two positions is NaN.
\<close>

theorem leg_matching_symmetric:
  "connectingLine ls a b = connectingLine ls b a \<and>
   (no_NaN (position a) \<and> no_NaN (position b) \<and>
    ((startPoint l = Some (position a) \<and> endPoint l = Some (position b)) \<or>
     (startPoint l = Some (position b) \<and> endPoint l = Some (position a))) \<longrightarrow>
    connects (position a) (position b) l \<and>
    (l \<in> set ls \<longrightarrow> connectingLine ls a b \<noteq> None))"
  using connectingLine_commute [of ls a b] connects_stored [of "position a" "position b" l]
    connectingLine_None_iff [of ls a b]
  by blast

theorem leg_matching_symmetric_witness:
  "no_NaN (position park) \<and> no_NaN (position cafe) \<and>
   startPoint walk_back = Some (position cafe) \<and> endPoint walk_back = Some (position park) \<and>
   walk_back \<in> set [walk_back, walk] \<and>
   connectingLine [walk_back, walk] park cafe = connectingLine [walk_back, walk] cafe park \<and>
   connects (position park) (position cafe) walk_back \<and>
   connectingLine [walk_back, walk] park cafe \<noteq> None"
  using leg_matching_symmetric [of "[walk_back, walk]" park cafe walk_back]
  by (simp add: no_NaN_def park_def cafe_def walk_back_def walk_def connects_def strict_eq_def
      connectingLine_def)

theorem leg_matching_NaN_counterexample:
  "startPoint lost_leg = Some (position lost) \<and> endPoint lost_leg = Some (position cafe) \<and>
   \<not> connects (position lost) (position cafe) lost_leg \<and>
   connectingLine [lost_leg] lost cafe = None"
  by (simp add: lost_leg_def lost_def walk_def park_def cafe_def connects_def strict_eq_def
      connectingLine_def)

subsection \<open>C5: the first matching leg, and no match\<close>

text \<open>
  C5. The day plan is Promo, Park, Cafe, Shop, where the description of Promo holds an
  element of class \<open>timeline-item\<close>, and the only leg connects Cafe and Shop. The
  lookup finds no leg for Promo and Park and none for Park and Cafe, and the leg for Cafe
  and Shop. \<open>createTimeline\<close> puts the leg between Park and Cafe, the pair without a
  match, and then throws, because it reads the day plan at the indices of the
  \<open>timeline-item\<close> elements, of which there are five. The merge of the export, which
  runs over the day plan itself, puts the leg between Cafe and Shop.
\<close>

theorem timeline_leg_between_unmatched_pair:
  "connectingLine [ride] promo park = None \<and>
   connectingLine [ride] park cafe = None \<and>
   connectingLine [ride] cafe shop = Some ride \<and>
   createTimeline sample_env
     (map_state\<lparr>lines := [ride], dayPlanItinerary := [promo, park, cafe, shop]\<rparr>) =
     (Some (Error ''nextItem is undefined''),
      map_state\<lparr>lines := [ride], dayPlanItinerary := [promo, park, cafe, shop],
        timeline := Some [LocationItem 0 promo [MarkupItem []], LocationItem 1 park [],
                          TransportItem ride, LocationItem 2 cafe [],
                          LocationItem 3 shop []]\<rparr>) \<and>
   fullItinerary (map_state\<lparr>lines := [ride], dayPlanItinerary := [promo, park, cafe, shop]\<rparr>) =
     [Location promo, Location park, Location cafe, Transport ride, Location shop]"
  by (simp add: connectingLine_def connects_def strict_eq_def truthy_def
      promo_def park_def cafe_def shop_def ride_def empty_state_def map_state_def
      createTimeline_def sample_env_def count_items_def fullItinerary_def addTransport_def
      eval_upt)

subsection \<open>C6: only stops with a time enter the day plan\<close>

text \<open>
  C6. After \<open>sendText\<close>, whatever the response and the state before, every stop of
  the day plan, and so every stop of the exported sequence, has a non-empty time.
  \<open>setPin\<close> returns when the map is not initialised or Leaflet accepts the point, and
  then records the stop in \<open>popUps\<close> in every case and in the day plan only when the
  record has a non-empty time. After a batch processed without an error message,
  \<open>popUps\<close> holds the stop of every location record and the day plan holds exactly
  those of them that have a time.
\<close>

theorem time_gates_day_plan:
  "(\<forall>s \<in> set (dayPlanItinerary (sendText E resp st0)). truthy (time s)) \<and>
   (\<forall>s. Location s \<in> set (fullItinerary (sendText E resp st0)) \<longrightarrow> truthy (time s)) \<and>
   (\<forall>args st. \<not> isMapInitialized st \<or> latLng_error E (position (addStop E args)) = None \<longrightarrow>
      (\<exists>st'. setPin E args st = (None, st') \<and>
         time (addStop E args) = args_time args \<and>
         popUps st' = popUps st @ [addStop E args] \<and>
         dayPlanItinerary st' =
           (if truthy (args_time args) then dayPlanItinerary st @ [addStop E args]
            else dayPlanItinerary st))) \<and>
   (\<forall>calls. resp = Ok calls \<and> errorMessage (sendText E resp st0) = [] \<longrightarrow>
      popUps (sendText E resp st0) = map (addStop E) (location_records calls) \<and>
      mset (dayPlanItinerary (sendText E resp st0)) =
        mset (filter (\<lambda>s. truthy (time s)) (popUps (sendText E resp st0))))"
proof (intro conjI allI impI ballI)
  fix s
  assume "s \<in> set (dayPlanItinerary (sendText E resp st0))"
  then show "truthy (time s)"
    using sendText_timed [of E resp st0] by (simp add: timed_def)
next
  fix s
  assume "Location s \<in> set (fullItinerary (sendText E resp st0))"
  then have "s \<in> set (dayPlanItinerary (sendText E resp st0))"
    by (rule fullItinerary_stops)
  then show "truthy (time s)"
    using sendText_timed [of E resp st0] by (simp add: timed_def)
next
  fix args and st :: app_state
  assume a: "\<not> isMapInitialized st \<or> latLng_error E (position (addStop E args)) = None"
  obtain r st' where s: "setPin E args st = (r, st')"
    by (cases "setPin E args st")
  have "fst (setPin E args st) = None"
    using a by (simp add: setPin_returns addStop_def)
  then have s': "setPin E args st = (None, st')"
    using s by simp
  have "time (addStop E args) = args_time args"
    by (simp add: addStop_def)
  then show "\<exists>st'. setPin E args st = (None, st') \<and>
         time (addStop E args) = args_time args \<and>
         popUps st' = popUps st @ [addStop E args] \<and>
         dayPlanItinerary st' =
           (if truthy (args_time args) then dayPlanItinerary st @ [addStop E args]
            else dayPlanItinerary st)"
    using s' setPin_None(1,2) [OF s'] by blast
next
  fix calls
  assume a: "resp = Ok calls \<and> errorMessage (sendText E resp st0) = []"
  then obtain st' where ok: "calls \<noteq> []"
      "processCalls E calls (restart (st0\<lparr>errorMessage := []\<rparr>)) = (None, st')"
    using sendText_no_message [of E resp st0] by auto
  have timed_eq: "timed = (\<lambda>s. truthy (time s))"
    by (rule ext) (simp add: timed_def)
  show "popUps (sendText E resp st0) = map (addStop E) (location_records calls)"
    using a sendText_success(1) [OF ok] by simp
  show "mset (dayPlanItinerary (sendText E resp st0)) =
        mset (filter (\<lambda>s. truthy (time s)) (popUps (sendText E resp st0)))"
    using a sendText_success(1,2) [OF ok] timed_eq
    by (simp add: buildDayPlan_def mset_array_sort)
qed

theorem time_gates_day_plan_witness:
  "\<not> truthy (args_time timeless_args) \<and>
   setPin sample_env timeless_args empty_state =
     (None, empty_state\<lparr>points := [position cafe],
                        popUps := [addStop sample_env timeless_args]\<rparr>) \<and>
   errorMessage (sendText sample_env
     (Ok [LocationCall cafe_args, LocationCall timeless_args, LineCall walk_args,
          LocationCall park_args]) empty_state) = [] \<and>
   popUps (sendText sample_env
     (Ok [LocationCall cafe_args, LocationCall timeless_args, LineCall walk_args,
          LocationCall park_args]) empty_state) = [cafe, addStop sample_env timeless_args, park] \<and>
   dayPlanItinerary (sendText sample_env
     (Ok [LocationCall cafe_args, LocationCall timeless_args, LineCall walk_args,
          LocationCall park_args]) empty_state) = [park, cafe] \<and>
   fullItinerary (sendText sample_env
     (Ok [LocationCall cafe_args, LocationCall timeless_args, LineCall walk_args,
          LocationCall park_args]) empty_state) = [Location park, Transport walk, Location cafe]"
proof -
  note inst = time_gates_day_plan [of sample_env
      "Ok [LocationCall cafe_args, LocationCall timeless_args, LineCall walk_args,
           LocationCall park_args]" empty_state]
  have 1: "\<not> truthy (args_time timeless_args)"
    by (simp add: timeless_args_def truthy_def)
  have 2: "setPin sample_env timeless_args empty_state =
     (None, empty_state\<lparr>points := [position cafe],
                        popUps := [addStop sample_env timeless_args]\<rparr>)"
    by (simp add: setPin_mapless sample_defs)
  have 3: "errorMessage (empty_state\<lparr>points := ps, lines := ls, popUps := pu, dayPlanItinerary := dp\<rparr>) = []"
    for ps ls pu dp
    by (simp add: empty_state_def)
  show ?thesis
    using inst 1 2
    by (simp only: eval_sendText createTimeline_fields fullItinerary_createTimeline eval_merge 3)
       simp
qed

subsection \<open>C7: the assembled sequence is complete\<close>

text \<open>
  C7. For a day plan of N stops and any legs, the exported sequence holds exactly the N
  stops, in day-plan order; it is the day plan with at most one leg after each stop but
  the last, so at most N - 1 legs, and it begins with the first stop and ends with the
  last.
\<close>

theorem assembler_completeness:
  "filter is_Location (fullItinerary st) = map Location (dayPlanItinerary st) \<and>
   fullItinerary st = assemble (\<lambda>_. True) (lines st) (dayPlanItinerary st) \<and>
   (dayPlanItinerary st = [] \<longrightarrow> fullItinerary st = []) \<and>
   (dayPlanItinerary st \<noteq> [] \<longrightarrow>
      length (filter (\<lambda>e. \<not> is_Location e) (fullItinerary st)) + 1 \<le> length (dayPlanItinerary st) \<and>
      hd (fullItinerary st) = Location (hd (dayPlanItinerary st)) \<and>
      last (fullItinerary st) = Location (last (dayPlanItinerary st)))"
  by (simp add: fullItinerary_assemble assemble_stops assemble_legs_Suc assemble_hd
      assemble_last)

theorem assembler_completeness_witness:
  "dayPlanItinerary (map_state\<lparr>lines := [walk], dayPlanItinerary := [park, cafe, shop]\<rparr>) \<noteq> [] \<and>
   fullItinerary (map_state\<lparr>lines := [walk], dayPlanItinerary := [park, cafe, shop]\<rparr>) =
     [Location park, Transport walk, Location cafe, Location shop] \<and>
   dayPlanItinerary (map_state\<lparr>lines := [walk]\<rparr>) = [] \<and>
   fullItinerary (map_state\<lparr>lines := [walk]\<rparr>) = []"
  using assembler_completeness [of "map_state\<lparr>lines := [walk], dayPlanItinerary := [park, cafe, shop]\<rparr>"]
    assembler_completeness [of "map_state\<lparr>lines := [walk]\<rparr>"]
  by (simp add: connectingLine_def connects_def strict_eq_def
      park_def cafe_def walk_def shop_def empty_state_def map_state_def fullItinerary_def)

subsection \<open>C8: a page lower than two margins\<close>

text \<open>
  C8. When \<open>pageHeight - 2 * margin \<le> 0\<close> (the margin is the constant 20 of
  \<open>drawItineraryOnPdf\<close>) and text heights are not negative, the walk over any sequence
  returns, and what it draws is the title and then one page per entry, in order: a page
  break, every drawing call of the entry at the top of the new page, and the connector
  line for every entry but the last. So there are as many page breaks as entries, one
  before each, and no entry is left out.
\<close>

theorem degenerate_page_breaks:
  assumes "pageHeight doc - 2 * margin \<le> 0"
    and "\<forall>size ls. 0 \<le> textHeight doc size ls"
  shows "drawItineraryOnPdf E doc items =
           DrawText [''Your Doggy Day Plan''] margin 40 # pages E doc (length items) 0 items \<and>
         length (filter (\<lambda>i. i = AddPage) (drawItineraryOnPdf E doc items)) = length items"
proof -
  let ?s = "\<lparr>y = 40 + 25, fontSize = 22, drawn = [DrawText [''Your Doggy Day Plan''] margin 40]\<rparr>"
  have "margin \<le> y ?s"
    by (simp add: margin_def)
  then have "drawn (drawItems E doc (length items) 0 items ?s) =
             drawn ?s @ pages E doc (length items) 0 items"
    by (rule drawItems_degenerate [OF assms])
  then have walk: "drawItineraryOnPdf E doc items =
           DrawText [''Your Doggy Day Plan''] margin 40 # pages E doc (length items) 0 items"
    by (simp add: drawItineraryOnPdf_def Let_def)
  then show ?thesis
    by (simp add: count_pages)
qed

theorem degenerate_page_breaks_witness:
  "pageHeight tiny_doc - 2 * margin \<le> 0 \<and>
   (\<forall>size ls. 0 \<le> textHeight tiny_doc size ls) \<and>
   drawItineraryOnPdf sample_env tiny_doc [Location park, Transport walk, Location cafe] =
     [DrawText [''Your Doggy Day Plan''] 20 40,
      AddPage,
      DrawText [''09:00''] 20 20, Circle 65 19 3, DrawText [''Park''] 80 20,
      DrawText [''Off-leash area''] 80 34, Line 65 24 65 58,
      AddPage,
      Circle 65 19 3, DrawText [''Walking''] 80 20, DrawText [[]] 80 34,
      DrawText [''20 minutes''] 80 46, Line 65 24 65 54,
      AddPage,
      DrawText [''11:00''] 20 20, Circle 65 19 3, DrawText [''Cafe''] 80 20,
      DrawText [''Patio seating''] 80 34, DrawText [''1 hour''] 80 50]"
proof -
  have deg: "pageHeight tiny_doc - 2 * margin \<le> 0"
    by (simp add: tiny_doc_def margin_def)
  have nonneg: "\<forall>size ls. 0 \<le> textHeight tiny_doc size ls"
    by (simp add: tiny_doc_def)
  note walk = degenerate_page_breaks
    [OF deg nonneg, of sample_env "[Location park, Transport walk, Location cafe]"]
  have "DrawText [''Your Doggy Day Plan''] margin 40 #
        pages sample_env tiny_doc (length [Location park, Transport walk, Location cafe]) 0
          [Location park, Transport walk, Location cafe] =
     [DrawText [''Your Doggy Day Plan''] 20 40,
      AddPage,
      DrawText [''09:00''] 20 20, Circle 65 19 3, DrawText [''Park''] 80 20,
      DrawText [''Off-leash area''] 80 34, Line 65 24 65 58,
      AddPage,
      Circle 65 19 3, DrawText [''Walking''] 80 20, DrawText [[]] 80 34,
      DrawText [''20 minutes''] 80 46, Line 65 24 65 54,
      AddPage,
      DrawText [''11:00''] 20 20, Circle 65 19 3, DrawText [''Cafe''] 80 20,
      DrawText [''Patio seating''] 80 34, DrawText [''1 hour''] 80 50]"
    by (simp add: placed_def bottom_def transportText_def sample_env_def eval_upperFirst
        str_or_def truthy_def margin_def timeX_def connectorX_def contentX_def contentWidth_def
        tiny_doc_def park_def cafe_def walk_def)
  then show ?thesis
    using walk deg nonneg by simp
qed

subsection \<open>C9: a sequence of 0 counts as missing\<close>

text \<open>
  C9. The comparator gives the same result for a stop with sequence 0 as for that stop
  without a sequence, on either side, so \<open>buildDayPlan\<close> orders a list as it orders the
  list with every sequence 0 removed. In the day plan a stop with sequence 0 comes after
  every stop with a sequence other than 0 (every positive one in particular), and the
  stops with sequence 0 or none are in the order of their times.
\<close>

theorem zero_sequence_sorts_as_missing:
  assumes "consistent (localeCompare E)"
  shows "compareFn E (zero_as_missing a) b = compareFn E a b \<and>
     compareFn E a (zero_as_missing b) = compareFn E a b \<and>
     buildDayPlan E (map zero_as_missing stops) = map zero_as_missing (buildDayPlan E stops) \<and>
     (\<forall>i j p. i < length stops \<and> j < length stops \<and>
        sequence (buildDayPlan E stops ! i) = Some 0 \<and>
        sequence (buildDayPlan E stops ! j) = Some p \<and> p \<noteq> 0 \<longrightarrow> j < i) \<and>
     (\<forall>i j. i < j \<and> j < length stops \<and>
        sequence (buildDayPlan E stops ! i) \<in> {None, Some 0} \<and>
        sequence (buildDayPlan E stops ! j) \<in> {None, Some 0} \<longrightarrow>
        localeCompare E (str_or (time (buildDayPlan E stops ! i)) [])
          (str_or (time (buildDayPlan E stops ! j)) []) \<le> 0)"
proof (intro conjI allI impI)
  let ?out = "buildDayPlan E stops"
  have sorted: "sorted_wrt (key_le (localeCompare E)) ?out"
    using assms by (rule buildDayPlan_sorted)
  have len: "length ?out = length stops"
    by (rule length_buildDayPlan)
  show "compareFn E (zero_as_missing a) b = compareFn E a b"
    by (rule compareFn_zero_left)
  show "compareFn E a (zero_as_missing b) = compareFn E a b"
    by (rule compareFn_zero_right)
  show "buildDayPlan E (map zero_as_missing stops) = map zero_as_missing ?out"
    by (rule buildDayPlan_zero_as_missing)
  show "j < i"
    if h: "i < length stops \<and> j < length stops \<and> sequence (?out ! i) = Some 0 \<and>
        sequence (?out ! j) = Some p \<and> p \<noteq> 0" for i j p
  proof (rule ccontr)
    assume "\<not> j < i"
    moreover have "i \<noteq> j"
      using h by auto
    ultimately have "i < j" by simp
    then have "key_le (localeCompare E) (?out ! i) (?out ! j)"
      using sorted h len by (simp add: sorted_wrt_iff_nth_less)
    then show False
      using h by (simp add: key_le_def seq_or_Infinity_def num_less_def)
  qed
  show "localeCompare E (str_or (time (?out ! i)) []) (str_or (time (?out ! j)) []) \<le> 0"
    if h: "i < j \<and> j < length stops \<and> sequence (?out ! i) \<in> {None, Some 0} \<and>
        sequence (?out ! j) \<in> {None, Some 0}" for i j
  proof -
    have "key_le (localeCompare E) (?out ! i) (?out ! j)"
      using sorted h len by (simp add: sorted_wrt_iff_nth_less)
    then show ?thesis
      using h by (auto simp: key_le_def seq_or_Infinity_def num_less_def)
  qed
qed

theorem zero_sequence_sorts_as_missing_witness:
  "consistent (localeCompare sample_env) \<and>
   buildDayPlan sample_env [zeroth, unnumbered, third, first] = [first, third, zeroth, unnumbered] \<and>
   buildDayPlan sample_env (map zero_as_missing [zeroth, unnumbered, third, first]) =
     [first, third, zeroth\<lparr>sequence := None\<rparr>, unnumbered] \<and>
   buildDayPlan sample_env [unnumbered, zeroth\<lparr>time := Some ''08:30''\<rparr>, first] =
     [first, unnumbered, zeroth\<lparr>time := Some ''08:30''\<rparr>]"
  using zero_sequence_sorts_as_missing [of sample_env zeroth first "[zeroth, unnumbered, third, first]"]
    consistent_lexCompare
  by (simp add: sample_env_def buildDayPlan_def array_sort_def compareFn_def seq_or_Infinity_def
      truthy_num_def comes_after_def third_def first_def unnumbered_def zeroth_def park_def
      str_or_def lexCompare_def zero_as_missing_def)

subsection \<open>C10: a NaN coordinate never matches\<close>

text \<open>
  C10. The map is not initialised and the day plan is Promo, Lost, Cafe, Shop, where the
  description of Promo holds an element of class \<open>timeline-item\<close>, Lost is the stop of
  a record whose latitude is not numeric, and the only leg connects Cafe and Shop. The
  latitude of Lost is NaN and the lookup finds no leg for Lost and Cafe, yet
  \<open>createTimeline\<close> puts the leg of Cafe and Shop between Lost and Cafe, and then
  throws: it reads the day plan at the indices of the \<open>timeline-item\<close> elements, of
  which there are five.
\<close>

theorem timeline_leg_after_NaN_stop:
  "lat (position lost_stop) = NaN \<and>
   connectingLine [ride] promo lost_stop = None \<and>
   connectingLine [ride] lost_stop cafe = None \<and>
   connectingLine [ride] cafe shop = Some ride \<and>
   createTimeline sample_env
     (empty_state\<lparr>lines := [ride], dayPlanItinerary := [promo, lost_stop, cafe, shop]\<rparr>) =
     (Some (Error ''nextItem is undefined''),
      empty_state\<lparr>lines := [ride], dayPlanItinerary := [promo, lost_stop, cafe, shop],
        timeline := Some [LocationItem 0 promo [MarkupItem []], LocationItem 1 lost_stop [],
                          TransportItem ride, LocationItem 2 cafe [],
                          LocationItem 3 shop []]\<rparr>)"
  by (simp add: connectingLine_def connects_def strict_eq_def truthy_def
      promo_def eval_lost_stop cafe_def shop_def ride_def empty_state_def
      createTimeline_def sample_env_def count_items_def addTransport_def eval_upt)

end
